theory Spec2Isabelle
  imports Main
begin

section \<open>Dates (utils.py)\<close>

text \<open>
  A naive \<^verbatim>\<open>datetime\<close> is its number of microseconds since the first instant of the
  calendar, a \<^verbatim>\<open>timedelta\<close> a number of microseconds. A date string of the
  format \<^verbatim>\<open>%d-%m-%Y\<close> names one calendar day and nothing else; it is represented
  by the number of that day. \<^verbatim>\<open>strftime\<close> drops the time of day and \<^verbatim>\<open>strptime\<close>
  gives midnight. Python's bound on the year (1 to 9999) is left out.
\<close>

type_synonym datetime = int
type_synonym timedelta = int
type_synonym date_string = int

definition us_per_day :: int where
  "us_per_day = 86400000000"

definition timedelta_days :: "int \<Rightarrow> timedelta" where
  "timedelta_days n = n * us_per_day"

definition string_to_date :: "date_string \<Rightarrow> datetime" where
  "string_to_date date_str = date_str * us_per_day"

definition date_to_string :: "datetime \<Rightarrow> date_string" where
  "date_to_string date = date div us_per_day"

section \<open>Exceptions and outcomes\<close>

text \<open>
  Every exception the modelled code can raise; all of them are subclasses of
  \<^verbatim>\<open>Exception\<close>. \<open>AllRequestAttemptsFailed\<close> is the plain
  \<^verbatim>\<open>Exception("All request attempts failed.")\<close> of the Requester.
\<close>

datatype exn = TypeError | KeyError | UnboundLocalError | OSError | AllRequestAttemptsFailed

datatype 'a outcome = Returned 'a | Raised exn

section \<open>Config (config.py)\<close>

text \<open>
  The \<^verbatim>\<open>value\<close> entries of the configuration dictionary that the scraping loop reads
  or writes. \<open>last_scraped_date_value\<close> is \<open>None\<close> for a JSON null.
\<close>

record configs_dict =
  start_date_value :: date_string
  last_scraped_date_value :: "date_string option"
  threshold_value :: int
  limit_value :: int
  total_value :: int
  max_attempts_value :: int

definition last_scraped_date :: "configs_dict \<Rightarrow> datetime" where
  "last_scraped_date c =
     (case last_scraped_date_value c of
        Some s \<Rightarrow> string_to_date s
      | None \<Rightarrow> string_to_date (start_date_value c))"

definition time_delta :: "configs_dict \<Rightarrow> timedelta" where
  "time_delta c = timedelta_days (threshold_value c)"

definition limit :: "configs_dict \<Rightarrow> int" where
  "limit c = limit_value c"

definition total_cfg :: "configs_dict \<Rightarrow> int" where
  "total_cfg c = total_value c"

definition max_attempts :: "configs_dict \<Rightarrow> int" where
  "max_attempts c = max_attempts_value c"


section \<open>Raw records (the API's JSON)\<close>

text \<open>
  A raw record is a loosely typed dictionary. Each key the Processor reads is a field that
  is absent, present with JSON null, or present with a value of the type the API gives it.
  \<open>dict_get\<close> is \<^verbatim>\<open>d.get(k, default)\<close>, \<open>dict_getitem\<close> is \<^verbatim>\<open>d[k]\<close>.
\<close>

datatype 'a field = Absent | Null | Val 'a

definition dict_get :: "'a field \<Rightarrow> 'a option \<Rightarrow> 'a option" where
  "dict_get f dflt = (case f of Absent \<Rightarrow> dflt | Null \<Rightarrow> None | Val v \<Rightarrow> Some v)"

definition dict_getitem :: "'a field \<Rightarrow> 'a option outcome" where
  "dict_getitem f =
     (case f of Absent \<Rightarrow> Raised KeyError | Null \<Rightarrow> Returned None | Val v \<Rightarrow> Returned (Some v))"

definition then_do :: "'a outcome \<Rightarrow> ('a \<Rightarrow> 'b outcome) \<Rightarrow> 'b outcome" where
  "then_do r k = (case r of Raised e \<Rightarrow> Raised e | Returned v \<Rightarrow> k v)"

text \<open>Iterating over \<^verbatim>\<open>d[k]\<close>: a missing key is a KeyError, \<^verbatim>\<open>None\<close> is not iterable.\<close>

definition iterate :: "'a list field \<Rightarrow> 'a list outcome" where
  "iterate f =
     then_do (dict_getitem f) (\<lambda>v. case v of None \<Rightarrow> Raised TypeError | Some xs \<Rightarrow> Returned xs)"

text \<open>\<^verbatim>\<open>int(x)\<close> raises TypeError on \<^verbatim>\<open>None\<close>.\<close>

definition int_of :: "int option \<Rightarrow> int outcome" where
  "int_of v = (case v of None \<Rightarrow> Raised TypeError | Some n \<Rightarrow> Returned n)"

record story_element =
  el_type :: "string field"
  el_text :: "string field"

record card =
  story_elements :: "story_element list field"

text \<open>A tag, an author and a section are dictionaries read only at their key \<^verbatim>\<open>name\<close>.\<close>

record raw_item =
  raw_headline :: "string field"
  raw_author_name :: "string field"
  raw_summary :: "string field"
  raw_subheadline :: "string field"
  raw_url :: "string field"
  raw_read_time :: "int field"
  raw_word_count :: "int field"
  raw_id :: "string field"
  raw_tags :: "string field list field"
  raw_cards :: "card list field"
  raw_created_at :: "int field"
  raw_published_at :: "int field"
  raw_updated_at :: "int field"
  raw_last_published_at :: "int field"
  raw_first_published_at :: "int field"
  raw_content_updated_at :: "int field"
  raw_seo :: "unit field"
  raw_meta_description :: "string field"
  raw_meta_keywords :: "string field"
  raw_authors :: "string field list field"
  raw_sections :: "string field list field"

record response =
  resp_total :: "int field"
  resp_items :: "raw_item list field"

section \<open>ItemModel and ItemsModel (models.py)\<close>

record ItemModel =
  headline :: "string option"
  subheadline :: "string option"
  content :: "string option"
  tags :: "string option"
  published_at :: "int option"
  created_at :: "int option"
  updated_at :: "int option"
  last_published_at :: "int option"
  first_published_at :: "int option"
  content_updated_at :: "int option"
  seo_description :: "string option"
  seo_tags :: "string option"
  main_author :: "string option"
  authors :: "string option"
  url :: "string option"
  read_time :: "int option"
  summary :: "string option"
  sections :: "string option"
  item_id :: "string option"
  word_count :: "int option"

datatype cell = CNone | CStr string | CInt int

definition str_cell :: "string option \<Rightarrow> cell" where
  "str_cell v = (case v of None \<Rightarrow> CNone | Some s \<Rightarrow> CStr s)"

definition int_cell :: "int option \<Rightarrow> cell" where
  "int_cell v = (case v of None \<Rightarrow> CNone | Some n \<Rightarrow> CInt n)"

definition to_list :: "ItemModel \<Rightarrow> cell list" where
  "to_list item =
     [str_cell (item_id item), str_cell (headline item), str_cell (subheadline item),
      str_cell (summary item), str_cell (content item), str_cell (main_author item),
      str_cell (authors item), str_cell (url item), int_cell (read_time item),
      str_cell (seo_description item), str_cell (seo_tags item), str_cell (tags item),
      str_cell (sections item), int_cell (word_count item), int_cell (published_at item),
      int_cell (first_published_at item), int_cell (last_published_at item),
      int_cell (created_at item), int_cell (updated_at item),
      int_cell (content_updated_at item)]"

definition COLUMN_NAMES :: "string list" where
  "COLUMN_NAMES =
     [''text_id'', ''text_headline'', ''text_subheadline'', ''text_summary'', ''text_content'',
      ''text_main_author'', ''text_authors'', ''text_url'', ''int_read_time'',
      ''text_seo_description'', ''text_seo_tags'', ''text_tags'', ''text_sections'',
      ''int_word_count'', ''date_published'', ''date_first_published_at'',
      ''date_last_published_at'', ''date_created_at'', ''date_updated_at'',
      ''date_content_updated_at'']"

text \<open>
  \<^verbatim>\<open>is_acceptable\<close> returns \<^verbatim>\<open>False\<close> or the value of
  \<^verbatim>\<open>len(item.headline) and len(item.content)\<close>, an integer that \<^verbatim>\<open>add\<close> tests for
  truth: \<^verbatim>\<open>False\<close> is 0, and \<^verbatim>\<open>a and b\<close> is \<^verbatim>\<open>a\<close> when \<^verbatim>\<open>a\<close> is 0, else
  \<^verbatim>\<open>b\<close>.
\<close>

definition is_acceptable :: "ItemModel \<Rightarrow> int" where
  "is_acceptable item =
     (case headline item of
        None \<Rightarrow> 0
      | Some h \<Rightarrow>
          (case content item of
             None \<Rightarrow> 0
           | Some c \<Rightarrow> if int (length h) = 0 then int (length h) else int (length c)))"

type_synonym ItemsModel = "ItemModel list"

definition ItemsModel_init :: ItemsModel where
  "ItemsModel_init = []"

definition add :: "ItemsModel \<Rightarrow> ItemModel \<Rightarrow> ItemsModel" where
  "add items item = (if is_acceptable item \<noteq> 0 then items @ [item] else items)"

definition len :: "ItemsModel \<Rightarrow> int" where
  "len items = int (length items)"

definition ItemsModel_to_list :: "ItemsModel \<Rightarrow> cell list list" where
  "ItemsModel_to_list items = map to_list items"

section \<open>Processor (processor.py)\<close>

text \<open>
  \<^verbatim>\<open>re.sub("<.*?>|&.*;", "", text)\<close>: scanning from the left, a \<^verbatim>\<open><\<close> with a
  \<^verbatim>\<open>>\<close> later on its line is removed up to the first such \<^verbatim>\<open>>\<close>; an \<^verbatim>\<open>&\<close>
  with a \<^verbatim>\<open>;\<close> later on its line is removed up to the last such \<^verbatim>\<open>;\<close> (the dot
  does not match a newline). The characters of the pattern are ASCII, so the bytes of a
  UTF-8 text behave as its code points do.
\<close>

fun first_gt :: "string \<Rightarrow> string option" where
  "first_gt [] = None"
| "first_gt (c # cs) =
     (if c = CHR ''>'' then Some cs else if c = CHR 0x0A then None else first_gt cs)"

fun last_semicolon :: "string \<Rightarrow> string option" where
  "last_semicolon [] = None"
| "last_semicolon (c # cs) =
     (if c = CHR 0x0A then None
      else (case last_semicolon cs of
              Some r \<Rightarrow> Some r
            | None \<Rightarrow> if c = CHR '';'' then Some cs else None))"

lemma first_gt_shorter: "first_gt cs = Some r \<Longrightarrow> length r < Suc (length cs)"
  by (induction cs arbitrary: r) (auto split: if_splits)

lemma last_semicolon_shorter: "last_semicolon cs = Some r \<Longrightarrow> length r < Suc (length cs)"
  by (induction cs arbitrary: r) (auto split: if_splits option.splits)

function clean_text :: "string \<Rightarrow> string" where
  "clean_text [] = []"
| "clean_text (c # cs) =
     (if c = CHR ''<'' then
        (case first_gt cs of Some r \<Rightarrow> clean_text r | None \<Rightarrow> c # clean_text cs)
      else if c = CHR ''&'' then
        (case last_semicolon cs of Some r \<Rightarrow> clean_text r | None \<Rightarrow> c # clean_text cs)
      else c # clean_text cs)"
  by pat_completeness auto
termination
  by (relation "measure length") (auto dest: first_gt_shorter last_semicolon_shorter)

text \<open>\<^verbatim>\<open>sep.join(xs)\<close>.\<close>

fun join :: "string \<Rightarrow> string list \<Rightarrow> string" where
  "join sep [] = []"
| "join sep [x] = x"
| "join sep (x # y # ys) = x @ sep @ join sep (y # ys)"

text \<open>
  \<^verbatim>\<open>int(int(t) / 1000)\<close>: the quotient truncated towards zero (the float division is
  exact enough for every millisecond timestamp of the API).
\<close>

definition to_unix_timestamp :: "int option \<Rightarrow> int outcome" where
  "to_unix_timestamp timestamp_string =
     then_do (int_of timestamp_string)
       (\<lambda>n. Returned (if 0 \<le> n then n div 1000 else - ((- n) div 1000)))"

text \<open>\<^verbatim>\<open>str(author.get("name", ""))\<close>: \<^verbatim>\<open>str(None)\<close> is the text \<^verbatim>\<open>None\<close>.\<close>

definition construct_authors_text :: "raw_item \<Rightarrow> string option" where
  "construct_authors_text item =
     (case dict_get (raw_authors item) None of
        None \<Rightarrow> None
      | Some author_dicts \<Rightarrow>
          Some (join '','' (map (\<lambda>author. case dict_get author (Some []) of
                                            None \<Rightarrow> ''None'' | Some name \<Rightarrow> name) author_dicts)))"

definition parse_seo_data :: "raw_item \<Rightarrow> string option \<times> string option" where
  "parse_seo_data item =
     (if raw_seo item \<noteq> Absent
      then (dict_get (raw_meta_description item) None, dict_get (raw_meta_keywords item) None)
      else (None, None))"

text \<open>
  One story element of the comprehension: \<^verbatim>\<open>element["type"] == "text"\<close> is tested
  first, then \<^verbatim>\<open>clean_text(element["text"])\<close> is computed; \<^verbatim>\<open>re.sub\<close> raises
  TypeError on \<^verbatim>\<open>None\<close>.
\<close>

definition element_text :: "story_element \<Rightarrow> string list outcome" where
  "element_text element =
     then_do (dict_getitem (el_type element))
       (\<lambda>t. if t = Some ''text''
            then then_do (dict_getitem (el_text element))
                   (\<lambda>x. case x of None \<Rightarrow> Raised TypeError | Some s \<Rightarrow> Returned [clean_text s])
            else Returned [])"

fun elements_text :: "story_element list \<Rightarrow> string list outcome" where
  "elements_text [] = Returned []"
| "elements_text (element # rest) =
     then_do (element_text element)
       (\<lambda>xs. then_do (elements_text rest) (\<lambda>ys. Returned (xs @ ys)))"

fun cards_text :: "card list \<Rightarrow> string list outcome" where
  "cards_text [] = Returned []"
| "cards_text (c # rest) =
     then_do (iterate (story_elements c))
       (\<lambda>elements. then_do (elements_text elements)
          (\<lambda>xs. then_do (cards_text rest) (\<lambda>ys. Returned (xs @ ys))))"

definition construct_content_text :: "raw_item \<Rightarrow> string outcome" where
  "construct_content_text item =
     then_do (iterate (raw_cards item))
       (\<lambda>cards. then_do (cards_text cards) (\<lambda>texts. Returned (concat texts)))"

definition names_of :: "string field list \<Rightarrow> string list" where
  "names_of ds = concat (map (\<lambda>d. case dict_get d None of None \<Rightarrow> [] | Some name \<Rightarrow> [name]) ds)"

definition construct_tags_text :: "raw_item \<Rightarrow> string option" where
  "construct_tags_text item =
     (case dict_get (raw_tags item) None of
        None \<Rightarrow> None
      | Some tag_dicts \<Rightarrow> Some (join '','' (names_of tag_dicts)))"

text \<open>
  \<^verbatim>\<open>construct_sections_text\<close> assigns its result to the local \<^verbatim>\<open>tags\<close> only inside
  \<^verbatim>\<open>if sections is not None\<close> and returns \<^verbatim>\<open>tags\<close> after it: with no sections the
  local is unbound.
\<close>

definition construct_sections_text :: "raw_item \<Rightarrow> string option outcome" where
  "construct_sections_text item =
     (case dict_get (raw_sections item) None of
        None \<Rightarrow> Raised UnboundLocalError
      | Some section_dicts \<Rightarrow> Returned (Some (join '','' (names_of section_dicts))))"

definition parse_data :: "raw_item \<Rightarrow> ItemModel outcome" where
  "parse_data item =
     (let headline = dict_get (raw_headline item) None;
          main_author = dict_get (raw_author_name item) None;
          summary = dict_get (raw_summary item) None;
          subheadline = dict_get (raw_subheadline item) None;
          url = dict_get (raw_url item) None
      in then_do (int_of (dict_get (raw_read_time item) (Some 0))) (\<lambda>read_time.
         let word_count = dict_get (raw_word_count item) (Some 0);
             id = dict_get (raw_id item) None;
             tags = construct_tags_text item
         in then_do (construct_content_text item) (\<lambda>content.
            then_do (to_unix_timestamp (dict_get (raw_created_at item) (Some 0))) (\<lambda>created_at.
            then_do (to_unix_timestamp (dict_get (raw_published_at item) (Some 0))) (\<lambda>published_at.
            then_do (to_unix_timestamp (dict_get (raw_updated_at item) (Some 0))) (\<lambda>updated_at.
            then_do (to_unix_timestamp (dict_get (raw_last_published_at item) (Some 0))) (\<lambda>last_published_at.
            then_do (to_unix_timestamp (dict_get (raw_first_published_at item) (Some 0))) (\<lambda>first_published_at.
            then_do (to_unix_timestamp (dict_get (raw_content_updated_at item) (Some 0))) (\<lambda>content_updated_at.
            let seo = parse_seo_data item;
                authors = construct_authors_text item
            in then_do (construct_sections_text item) (\<lambda>sections.
               Returned \<lparr> headline = headline, subheadline = subheadline,
                          content = Some content, tags = tags,
                          published_at = Some published_at, created_at = Some created_at,
                          updated_at = Some updated_at,
                          last_published_at = Some last_published_at,
                          first_published_at = Some first_published_at,
                          content_updated_at = Some content_updated_at,
                          seo_description = fst seo, seo_tags = snd seo,
                          main_author = main_author, authors = authors, url = url,
                          read_time = Some read_time, summary = summary,
                          sections = sections, item_id = id,
                          word_count = word_count \<rparr>))))))))))"

fun Processor_loop :: "raw_item list \<Rightarrow> ItemsModel \<Rightarrow> ItemsModel outcome" where
  "Processor_loop [] items_out = Returned items_out"
| "Processor_loop (raw_item # rest) items_out =
     then_do (parse_data raw_item) (\<lambda>item. Processor_loop rest (add items_out item))"

definition Processor_call :: "raw_item list \<Rightarrow> ItemsModel outcome" where
  "Processor_call items_in = Processor_loop items_in ItemsModel_init"

section \<open>The world outside the process\<close>

text \<open>
  What the environment decides: the answer to the \<open>n\<close>-th \<^verbatim>\<open>requests.get\<close> of the
  run (\<open>None\<close> when the request or the decoding of its body raises), given the offset,
  the limit and the two bounds of the query; the fate of the \<open>n\<close>-th write of the
  configuration file; and the \<open>n\<close>-th reading of the clock by \<^verbatim>\<open>date_iterable\<close>.
  The bounds are passed as the datetimes themselves, not as timestamps in milliseconds.
\<close>

datatype write_result = Written | OpenFailed | DumpFailed

record env =
  http_get :: "nat \<Rightarrow> int \<Rightarrow> int \<Rightarrow> datetime \<Rightarrow> datetime \<Rightarrow> response option"
  write_outcome :: "nat \<Rightarrow> write_result"
  now :: "nat \<Rightarrow> datetime"

text \<open>
  The state of the run: the dictionary \<^verbatim>\<open>Config.configs\<close> in memory, the content of
  the configuration file (\<open>None\<close> when a failed dump left it truncated), the calls of the
  Saver (the date that names the output file, and the rows appended), the durations passed
  to \<^verbatim>\<open>time.sleep\<close>, the requests sent (offset, limit, start, end), and the numbers of
  writes of the configuration file and of readings of the clock so far. \<open>worked\<close> is the
  list of date ranges that \<^verbatim>\<open>begin\<close> has logged as its working date range.
\<close>

record world =
  configs :: configs_dict
  config_file :: "configs_dict option"
  csv :: "(datetime \<times> cell list list) list"
  slept :: "int list"
  requested :: "(int \<times> int \<times> datetime \<times> datetime) list"
  n_writes :: nat
  n_clock :: nat
  worked :: "(datetime \<times> datetime) list"

section \<open>Config.update (config.py)\<close>

text \<open>
  The dictionary in memory is changed first; then the file is opened for writing, which
  truncates it, and the dictionary is dumped. A failure of either step raises OSError out
  of \<^verbatim>\<open>update\<close>, after the change in memory.
\<close>

definition update :: "env \<Rightarrow> int \<Rightarrow> datetime \<Rightarrow> world \<Rightarrow> unit outcome \<times> world" where
  "update e newly_added last_scrapped_date w =
     (let c = (configs w)\<lparr>total_value := total_value (configs w) + newly_added,
                           last_scraped_date_value := Some (date_to_string last_scrapped_date)\<rparr>;
          w1 = w\<lparr>configs := c, n_writes := Suc (n_writes w)\<rparr>
      in case write_outcome e (n_writes w) of
           Written \<Rightarrow> (Returned (), w1\<lparr>config_file := Some c\<rparr>)
         | OpenFailed \<Rightarrow> (Raised OSError, w1)
         | DumpFailed \<Rightarrow> (Raised OSError, w1\<lparr>config_file := None\<rparr>))"

section \<open>Requester (requester.py)\<close>

text \<open>
  \<^verbatim>\<open>logging.Logger.log\<close> has the signature \<^verbatim>\<open>log(level, msg, *args, **kwargs)\<close>: called
  with fewer than two positional arguments it raises TypeError before anything is logged.
  \<^verbatim>\<open>wait\<close> calls it with the message alone.
\<close>

definition Logger_log :: "nat \<Rightarrow> unit outcome" where
  "Logger_log n_positional = (if n_positional < 2 then Raised TypeError else Returned ())"

definition wait :: "int \<Rightarrow> world \<Rightarrow> unit outcome \<times> world" where
  "wait attempt w =
     (let sleep_time = 30 * attempt
      in case Logger_log 1 of
           Raised ex \<Rightarrow> (Raised ex, w)
         | Returned _ \<Rightarrow> (Returned (), w\<lparr>slept := slept w @ [sleep_time]\<rparr>))"

text \<open>
  The loop over \<^verbatim>\<open>range(1, max_attempts + 1)\<close>. An exception raised by \<^verbatim>\<open>wait\<close>
  inside the \<^verbatim>\<open>except\<close> block leaves \<^verbatim>\<open>__call__\<close>.
\<close>

fun attempts :: "env \<Rightarrow> datetime \<Rightarrow> datetime \<Rightarrow> int \<Rightarrow> int list \<Rightarrow> world
    \<Rightarrow> response outcome \<times> world" where
  "attempts e date_start date_end offset [] w = (Raised AllRequestAttemptsFailed, w)"
| "attempts e date_start date_end offset (attempt # rest) w =
     (let request = (offset, limit (configs w), date_start, date_end);
          w1 = w\<lparr>requested := requested w @ [request]\<rparr>
      in case http_get e (length (requested w)) offset (limit (configs w)) date_start date_end of
           Some r \<Rightarrow> (Returned r, w1)
         | None \<Rightarrow>
             (case wait attempt w1 of
                (Raised ex, w2) \<Rightarrow> (Raised ex, w2)
              | (Returned _, w2) \<Rightarrow> attempts e date_start date_end offset rest w2))"

definition Requester_call :: "env \<Rightarrow> datetime \<Rightarrow> datetime \<Rightarrow> int \<Rightarrow> world
    \<Rightarrow> response outcome \<times> world" where
  "Requester_call e date_start date_end offset w =
     attempts e date_start date_end offset [1..max_attempts (configs w)] w"

section \<open>Saver (saver.py)\<close>

text \<open>
  The rows are appended to the file named after the year of \<open>current_date\<close>; the call is
  recorded with the date. The append itself is assumed not to fail.
\<close>

definition Saver_call :: "ItemsModel \<Rightarrow> datetime \<Rightarrow> world \<Rightarrow> world" where
  "Saver_call items_in current_date w =
     w\<lparr>csv := csv w @ [(current_date, ItemsModel_to_list items_in)]\<rparr>"

section \<open>Scraper (scraper.py)\<close>

datatype signal = Break | Continue

text \<open>
  One iteration of the loop of \<^verbatim>\<open>fetch_articles_in_date_range\<close>, at one offset.
  \<^verbatim>\<open>int(response["total"]) is 0 or len(response["items"]) is 0\<close>: the second test is
  evaluated only when the first is false (for the integer 0, \<^verbatim>\<open>is 0\<close> holds exactly
  when the value is 0).
\<close>

definition page :: "env \<Rightarrow> datetime \<Rightarrow> datetime \<Rightarrow> int \<Rightarrow> world \<Rightarrow> signal outcome \<times> world" where
  "page e date_start date_end offset w =
     (case Requester_call e date_start date_end offset w of
        (Raised ex, w1) \<Rightarrow> (Raised ex, w1)
      | (Returned response, w1) \<Rightarrow>
          (case then_do (dict_getitem (resp_total response)) int_of of
             Raised ex \<Rightarrow> (Raised ex, w1)
           | Returned t \<Rightarrow>
               if t = 0 then (Returned Break, w1)
               else
                 (case iterate (resp_items response) of
                    Raised ex \<Rightarrow> (Raised ex, w1)
                  | Returned raw_items \<Rightarrow>
                      if int (length raw_items) = 0 then (Returned Break, w1)
                      else
                        (case Processor_call raw_items of
                           Raised ex \<Rightarrow> (Raised ex, w1)
                         | Returned processed_items \<Rightarrow>
                             (let w2 = Saver_call processed_items date_start w1
                              in case update e (len processed_items) date_end w2 of
                                   (Raised ex, w3) \<Rightarrow> (Raised ex, w3)
                                 | (Returned _, w3) \<Rightarrow> (Returned Continue, w3))))))"

text \<open>
  \<^verbatim>\<open>offset_iterable\<close> never ends, so the loop over it runs on fuel: \<open>None\<close> is a loop
  that has not ended within the fuel. The next offset is the old one plus
  \<^verbatim>\<open>config.limit\<close>, read when the generator is resumed.
\<close>

fun offsets_loop :: "nat \<Rightarrow> env \<Rightarrow> datetime \<Rightarrow> datetime \<Rightarrow> int \<Rightarrow> world
    \<Rightarrow> (unit outcome \<times> world) option" where
  "offsets_loop 0 e date_start date_end offset w = None"
| "offsets_loop (Suc fuel) e date_start date_end offset w =
     (case page e date_start date_end offset w of
        (Raised ex, w1) \<Rightarrow> Some (Raised ex, w1)
      | (Returned Break, w1) \<Rightarrow> Some (Returned (), w1)
      | (Returned Continue, w1) \<Rightarrow>
          offsets_loop fuel e date_start date_end (offset + limit (configs w1)) w1)"

definition fetch_articles_in_date_range :: "nat \<Rightarrow> env \<Rightarrow> datetime \<Rightarrow> datetime \<Rightarrow> world
    \<Rightarrow> (unit outcome \<times> world) option" where
  "fetch_articles_in_date_range fuel e date_start date_end w =
     offsets_loop fuel e date_start date_end 0 w"

text \<open>
  The generator \<^verbatim>\<open>date_iterable\<close>: \<open>Fresh\<close> before its first step, \<open>Suspended d\<close> at
  its \<^verbatim>\<open>yield\<close> of \<open>d\<close>. A step returns the date it yields, or \<open>None\<close> when the
  generator ends. The cursor is read at the first step only; the clock is read at every
  step.
\<close>

datatype generator = Fresh | Suspended datetime

definition date_iterable_next :: "env \<Rightarrow> generator \<Rightarrow> world
    \<Rightarrow> (datetime \<times> generator) option \<times> world" where
  "date_iterable_next e g w =
     (let current_date = (case g of
                            Fresh \<Rightarrow> last_scraped_date (configs w)
                          | Suspended d \<Rightarrow> d + time_delta (configs w));
          w1 = w\<lparr>n_clock := Suc (n_clock w)\<rparr>
      in if current_date < now e (n_clock w)
         then (Some (current_date, Suspended current_date), w1)
         else (None, w1))"

text \<open>The dates the generator yields when it is run to its end with nothing in between.\<close>

fun date_iterable :: "nat \<Rightarrow> env \<Rightarrow> generator \<Rightarrow> world \<Rightarrow> (datetime list \<times> world) option" where
  "date_iterable 0 e g w = None"
| "date_iterable (Suc fuel) e g w =
     (case date_iterable_next e g w of
        (None, w1) \<Rightarrow> Some ([], w1)
      | (Some (d, g1), w1) \<Rightarrow>
          (case date_iterable fuel e g1 w1 of
             None \<Rightarrow> None
           | Some (ds, w2) \<Rightarrow> Some (d # ds, w2)))"

text \<open>
  \<^verbatim>\<open>begin\<close>: every exception of a date range is caught, logged as a warning, and the
  loop goes on with the next date. \<open>page_fuel\<close> bounds the pages of one date range,
  \<open>fuel\<close> the date ranges.
\<close>

fun begin_loop :: "nat \<Rightarrow> nat \<Rightarrow> env \<Rightarrow> generator \<Rightarrow> world \<Rightarrow> world option" where
  "begin_loop page_fuel 0 e g w = None"
| "begin_loop page_fuel (Suc fuel) e g w =
     (case date_iterable_next e g w of
        (None, w1) \<Rightarrow> Some w1
      | (Some (date_start, g1), w1) \<Rightarrow>
          (let date_end = date_start + time_delta (configs w1);
               w2 = w1\<lparr>worked := worked w1 @ [(date_start, date_end)]\<rparr>
           in case fetch_articles_in_date_range page_fuel e date_start date_end w2 of
                None \<Rightarrow> None
              | Some (r, w3) \<Rightarrow> begin_loop page_fuel fuel e g1 w3))"

definition Scraper_begin :: "nat \<Rightarrow> nat \<Rightarrow> env \<Rightarrow> world \<Rightarrow> world option" where
  "Scraper_begin page_fuel fuel e w = begin_loop page_fuel fuel e Fresh w"


section \<open>Example inputs\<close>

text \<open>
  A configuration with no cursor yet: start date 01-01-2020 (day 737425), windows of one
  day, pages of 5 records, 3 attempts for a request.
\<close>

definition example_configs :: configs_dict where
  "example_configs =
     \<lparr>start_date_value = 737425, last_scraped_date_value = None, threshold_value = 1,
      limit_value = 5, total_value = 0, max_attempts_value = 3\<rparr>"

definition example_world :: world where
  "example_world =
     \<lparr>configs = example_configs, config_file = Some example_configs, csv = [], slept = [],
      requested = [], n_writes = 0, n_clock = 0, worked = []\<rparr>"

definition valid_raw :: raw_item where
  "valid_raw =
     \<lparr>raw_headline = Val ''Headline'', raw_author_name = Val ''Author'',
      raw_summary = Null, raw_subheadline = Absent, raw_url = Val ''u'',
      raw_read_time = Val 2, raw_word_count = Val 10, raw_id = Val ''id1'',
      raw_tags = Val [Val ''t1'', Absent, Val ''t2''],
      raw_cards = Val [\<lparr>story_elements = Val
         [\<lparr>el_type = Val ''text'', el_text = Val ''<p>Body</p>''\<rparr>,
          \<lparr>el_type = Val ''image'', el_text = Absent\<rparr>]\<rparr>],
      raw_created_at = Val 1577836800000, raw_published_at = Val 1577836800999,
      raw_updated_at = Absent, raw_last_published_at = Absent,
      raw_first_published_at = Absent, raw_content_updated_at = Absent,
      raw_seo = Absent, raw_meta_description = Absent, raw_meta_keywords = Absent,
      raw_authors = Val [Val ''A'', Null], raw_sections = Val [Val ''s1'']\<rparr>"

definition empty_headline_raw :: raw_item where
  "empty_headline_raw = valid_raw\<lparr>raw_headline := Val []\<rparr>"

definition no_sections_raw :: raw_item where
  "no_sections_raw = valid_raw\<lparr>raw_sections := Absent\<rparr>"

definition no_cards_raw :: raw_item where
  "no_cards_raw = valid_raw\<lparr>raw_cards := Absent\<rparr>"

text \<open>A remote API that answers every request at once: \<open>first_page\<close> at offset 0, an
  empty page with total 0 at every other offset.\<close>

definition one_page_env :: "raw_item list \<Rightarrow> env" where
  "one_page_env first_page =
     \<lparr>http_get = (\<lambda>n offset lim date_start date_end.
         if offset = 0
         then Some \<lparr>resp_total = Val (int (length first_page)), resp_items = Val first_page\<rparr>
         else Some \<lparr>resp_total = Val 0, resp_items = Val []\<rparr>),
      write_outcome = (\<lambda>n. Written),
      now = (\<lambda>n. string_to_date 737426)\<rparr>"

text \<open>A remote API whose every request fails.\<close>

definition failing_env :: env where
  "failing_env =
     \<lparr>http_get = (\<lambda>n offset lim date_start date_end. None),
      write_outcome = (\<lambda>n. Written),
      now = (\<lambda>n. string_to_date 737426)\<rparr>"

text \<open>A datetime that is not a midnight: noon of 02-01-2020.\<close>

definition noon_after_start :: datetime where
  "noon_after_start = string_to_date 737426 + 43200000000"

text \<open>
  A remote API that holds the records of \<open>pages\<close>: a request at the offset \<open>j * limit\<close>
  is answered with page \<open>j\<close>, a request past the last page with no items; the total is
  the number of all records.
\<close>

definition paged_env :: "raw_item list list \<Rightarrow> env" where
  "paged_env pages =
     \<lparr>http_get = (\<lambda>n offset lim date_start date_end.
         if 0 < lim \<and> 0 \<le> offset \<and> nat (offset div lim) < length pages
         then Some \<lparr>resp_total = Val (int (length (concat pages))),
                     resp_items = Val (pages ! nat (offset div lim))\<rparr>
         else Some \<lparr>resp_total = Val (int (length (concat pages))), resp_items = Val []\<rparr>),
      write_outcome = (\<lambda>n. Written),
      now = (\<lambda>n. string_to_date 737426)\<rparr>"

text \<open>The example state with windows of zero days.\<close>

definition zero_width_world :: world where
  "zero_width_world = example_world\<lparr>configs := example_configs\<lparr>threshold_value := 0\<rparr>\<rparr>"

text \<open>
  A remote API with no article at all, and a clock that shows 02-01-2020 at its first
  reading and noon of 03-01-2020 at every later one.
\<close>

definition ticking_env :: env where
  "ticking_env =
     \<lparr>http_get = (\<lambda>n offset lim date_start date_end.
         Some \<lparr>resp_total = Val 0, resp_items = Val []\<rparr>),
      write_outcome = (\<lambda>n. Written),
      now = (\<lambda>n. if n = 0 then string_to_date 737426
                   else string_to_date 737427 + 43200000000)\<rparr>"



text \<open>
  A remote API that answers a request at offset 0 with one valid record (of a total of 2)
  and every other request with a total of 0, in a world where the first write of the
  configuration file fails at \<^verbatim>\<open>open\<close>, and on 03-01-2020.
\<close>

definition write_fails_env :: env where
  "write_fails_env =
     \<lparr>http_get = (\<lambda>n offset lim date_start date_end.
         if offset = 0 then Some \<lparr>resp_total = Val 2, resp_items = Val [valid_raw]\<rparr>
         else Some \<lparr>resp_total = Val 0, resp_items = Val []\<rparr>),
      write_outcome = (\<lambda>n. if n = 0 then OpenFailed else Written),
      now = (\<lambda>n. string_to_date 737427)\<rparr>"

text \<open>
  A remote API that answers, for every date range, a request at offset 0 with one valid
  record (of a total of 2) and every other request with no items, on 03-01-2020.
\<close>

definition two_day_env :: env where
  "two_day_env =
     \<lparr>http_get = (\<lambda>n offset lim date_start date_end.
         if offset = 0 then Some \<lparr>resp_total = Val 2, resp_items = Val [valid_raw]\<rparr>
         else Some \<lparr>resp_total = Val 2, resp_items = Val []\<rparr>),
      write_outcome = (\<lambda>n. Written),
      now = (\<lambda>n. string_to_date 737427)\<rparr>"

text \<open>The record that \<^verbatim>\<open>parse_data\<close> makes of \<open>valid_raw\<close>.\<close>

definition valid_item :: ItemModel where
  "valid_item =
     \<lparr>headline = Some ''Headline'', subheadline = None,
       content = Some ''Body'', tags = Some ''t1,t2'',
       published_at = Some 1577836800, created_at = Some 1577836800,
       updated_at = Some 0, last_published_at = Some 0,
       first_published_at = Some 0, content_updated_at = Some 0,
       seo_description = None, seo_tags = None, main_author = Some ''Author'',
       authors = Some ''A,None'', url = Some ''u'', read_time = Some 2,
       summary = None, sections = Some ''s1'', item_id = Some ''id1'',
       word_count = Some 10\<rparr>"

section \<open>Notions used in the statements\<close>

text \<open>
  A response is a full page when the loop of \<^verbatim>\<open>fetch_articles_in_date_range\<close> goes
  past its test and the Processor returns; it is exhausted when the test ends the loop.
  \<open>accepted_rows\<close> is what the Processor returns for its items.
\<close>

definition full_page :: "response \<Rightarrow> bool" where
  "full_page r =
     (case resp_total r of
        Val t \<Rightarrow>
          (case resp_items r of
             Val raw_items \<Rightarrow>
               t \<noteq> 0 \<and> raw_items \<noteq> [] \<and>
               (case Processor_call raw_items of Returned _ \<Rightarrow> True | Raised _ \<Rightarrow> False)
           | _ \<Rightarrow> False)
      | _ \<Rightarrow> False)"

definition exhausted :: "response \<Rightarrow> bool" where
  "exhausted r = (case resp_total r of Val t \<Rightarrow> t = 0 \<or> resp_items r = Val [] | _ \<Rightarrow> False)"

definition accepted_rows :: "response \<Rightarrow> ItemsModel" where
  "accepted_rows r =
     (case resp_items r of
        Val raw_items \<Rightarrow>
          (case Processor_call raw_items of Returned items_out \<Rightarrow> items_out | Raised _ \<Rightarrow> [])
      | _ \<Rightarrow> [])"

text \<open>
  The invariant of an \<^verbatim>\<open>ItemsModel\<close>: for an item, for the row that \<^verbatim>\<open>to_list\<close>
  makes of it (the headline is column 1 and the content column 4 of \<open>COLUMN_NAMES\<close>), and
  for all the rows that the Saver has been given.
\<close>

definition has_headline_and_content :: "ItemModel \<Rightarrow> bool" where
  "has_headline_and_content item =
     (case headline item of
        None \<Rightarrow> False
      | Some h \<Rightarrow> (case content item of None \<Rightarrow> False | Some c \<Rightarrow> h \<noteq> [] \<and> c \<noteq> []))"

definition row_has_headline_and_content :: "cell list \<Rightarrow> bool" where
  "row_has_headline_and_content row =
     (length row = length COLUMN_NAMES
      \<and> (case row ! 1 of CStr h \<Rightarrow> h \<noteq> [] | _ \<Rightarrow> False)
      \<and> (case row ! 4 of CStr c \<Rightarrow> c \<noteq> [] | _ \<Rightarrow> False))"

definition rows_ok :: "world \<Rightarrow> bool" where
  "rows_ok w = list_all (list_all row_has_headline_and_content) (map snd (csv w))"

section \<open>Helper lemmas\<close>

lemma midnight_roundtrip:
  "d mod us_per_day = 0 \<Longrightarrow> string_to_date (date_to_string d) = d"
  using div_mult_mod_eq [of d us_per_day]
  by (simp add: string_to_date_def date_to_string_def)

lemma parse_no_sections: "parse_data no_sections_raw = Raised UnboundLocalError"
  by (simp add: parse_data_def no_sections_raw_def valid_raw_def dict_get_def int_of_def then_do_def
     construct_content_text_def iterate_def dict_getitem_def element_text_def to_unix_timestamp_def
     construct_sections_text_def Let_def)

lemma parse_no_cards: "parse_data no_cards_raw = Raised KeyError"
  by (simp add: parse_data_def no_cards_raw_def valid_raw_def dict_get_def int_of_def then_do_def
     construct_content_text_def iterate_def dict_getitem_def Let_def)

lemma parse_valid: "parse_data valid_raw = Returned valid_item"
  by (simp add: parse_data_def valid_raw_def valid_item_def dict_get_def int_of_def then_do_def
     construct_content_text_def iterate_def dict_getitem_def element_text_def to_unix_timestamp_def
     construct_sections_text_def construct_tags_text_def construct_authors_text_def names_of_def
     parse_seo_data_def Let_def)

lemma wait_raises: "wait attempt w = (Raised TypeError, w)"
  by (simp add: wait_def Logger_log_def)

lemma Requester_call_cases:
  "Requester_call e ds de offset w =
     (if max_attempts (configs w) < 1 then (Raised AllRequestAttemptsFailed, w)
      else (case http_get e (length (requested w)) offset (limit (configs w)) ds de of
              Some r \<Rightarrow> (Returned r, w\<lparr>requested := requested w @ [(offset, limit (configs w), ds, de)]\<rparr>)
            | None \<Rightarrow> (Raised TypeError,
                         w\<lparr>requested := requested w @ [(offset, limit (configs w), ds, de)]\<rparr>)))"
proof (cases "max_attempts (configs w) < 1")
  case True
  then show ?thesis by (simp add: Requester_call_def)
next
  case False
  then have "[1..max_attempts (configs w)] = 1 # [2..max_attempts (configs w)]"
    by (simp add: upto_rec1)
  with False show ?thesis
    by (simp add: Requester_call_def wait_raises Let_def split: option.splits)
qed

lemma Requester_call_frame:
  assumes "Requester_call e ds de offset w = (r, w1)"
  shows "configs w1 = configs w \<and> config_file w1 = config_file w \<and> csv w1 = csv w
       \<and> slept w1 = slept w \<and> n_writes w1 = n_writes w \<and> n_clock w1 = n_clock w
       \<and> worked w1 = worked w"
  using assms by (auto simp add: Requester_call_cases split: if_splits option.splits)

lemma update_frame:
  assumes "update e a d w = (r, w1)"
  shows "csv w1 = csv w \<and> slept w1 = slept w \<and> requested w1 = requested w
       \<and> n_clock w1 = n_clock w \<and> worked w1 = worked w \<and> n_writes w1 = Suc (n_writes w)
       \<and> configs w1 = (configs w)\<lparr>total_value := total_value (configs w) + a,
                                   last_scraped_date_value := Some (date_to_string d)\<rparr>"
  using assms by (auto simp add: update_def Let_def split: write_result.splits)

lemma page_full:
  assumes "0 < max_attempts (configs w)"
    and "http_get e (length (requested w)) offset (limit (configs w)) ds de = Some r"
    and "full_page r"
    and "write_outcome e (n_writes w) = Written"
  shows "page e ds de offset w =
     (Returned Continue,
      w\<lparr>requested := requested w @ [(offset, limit (configs w), ds, de)],
        csv := csv w @ [(ds, ItemsModel_to_list (accepted_rows r))],
        configs := (configs w)\<lparr>total_value := total_value (configs w) + len (accepted_rows r),
                                last_scraped_date_value := Some (date_to_string de)\<rparr>,
        n_writes := Suc (n_writes w),
        config_file := Some ((configs w)\<lparr>total_value := total_value (configs w) + len (accepted_rows r),
                                last_scraped_date_value := Some (date_to_string de)\<rparr>)\<rparr>)"
  using assms
  by (auto simp add: page_def Requester_call_cases full_page_def accepted_rows_def then_do_def
      dict_getitem_def int_of_def iterate_def Saver_call_def update_def Let_def
      split: field.splits outcome.splits)

lemma page_exhausted:
  assumes "0 < max_attempts (configs w)"
    and "http_get e (length (requested w)) offset (limit (configs w)) ds de = Some r"
    and "exhausted r"
  shows "page e ds de offset w =
     (Returned Break, w\<lparr>requested := requested w @ [(offset, limit (configs w), ds, de)]\<rparr>)"
  using assms
  by (auto simp add: page_def Requester_call_cases exhausted_def then_do_def
      dict_getitem_def int_of_def iterate_def split: field.splits)

lemma limit_update [simp]:
  "limit (c\<lparr>total_value := t, last_scraped_date_value := d\<rparr>) = limit c"
  "max_attempts (c\<lparr>total_value := t, last_scraped_date_value := d\<rparr>) = max_attempts c"
  "time_delta (c\<lparr>total_value := t, last_scraped_date_value := d\<rparr>) = time_delta c"
  by (simp_all add: limit_def max_attempts_def time_delta_def)

lemma offsets_loop_prefix:
  assumes "0 < max_attempts (configs w)"
    and "\<forall>j<length rs. http_get e (length (requested w) + j)
           (offset + int j * limit (configs w)) (limit (configs w)) ds de = Some (rs ! j)"
    and "\<forall>j<length rs. full_page (rs ! j)"
    and "\<forall>j<length rs. write_outcome e (n_writes w + j) = Written"
  shows "\<exists>wn. offsets_loop (length rs + k) e ds de offset w
               = offsets_loop k e ds de (offset + int (length rs) * limit (configs w)) wn
      \<and> requested wn = requested w @
            map (\<lambda>j. (offset + int j * limit (configs w), limit (configs w), ds, de))
              [0..<length rs]
      \<and> csv wn = csv w @ map (\<lambda>r. (ds, ItemsModel_to_list (accepted_rows r))) rs
      \<and> configs wn =
            (if rs = [] then configs w
             else (configs w)\<lparr>total_value :=
                     total_value (configs w) + sum_list (map (\<lambda>r. len (accepted_rows r)) rs),
                   last_scraped_date_value := Some (date_to_string de)\<rparr>)
      \<and> config_file wn = (if rs = [] then config_file w else Some (configs wn))
      \<and> n_writes wn = n_writes w + length rs
      \<and> n_clock wn = n_clock w \<and> worked wn = worked w \<and> slept wn = slept w"
  using assms
proof (induction rs arbitrary: w offset)
  case Nil
  show ?case by (intro exI [where x = w]) simp
next
  case (Cons r rs)
  let ?L = "limit (configs w)"
  let ?c = "(configs w)\<lparr>total_value := total_value (configs w) + len (accepted_rows r),
                          last_scraped_date_value := Some (date_to_string de)\<rparr>"
  let ?w1 = "w\<lparr>requested := requested w @ [(offset, ?L, ds, de)],
        csv := csv w @ [(ds, ItemsModel_to_list (accepted_rows r))],
        configs := ?c, n_writes := Suc (n_writes w), config_file := Some ?c\<rparr>"
  have h0: "http_get e (length (requested w)) offset ?L ds de = Some r"
    using Cons.prems(2) [rule_format, of 0] by simp
  have f0: "full_page r" using Cons.prems(3) [rule_format, of 0] by simp
  have w0: "write_outcome e (n_writes w) = Written"
    using Cons.prems(4) [rule_format, of 0] by simp
  have p: "page e ds de offset w = (Returned Continue, ?w1)"
    using page_full [OF Cons.prems(1) h0 f0 w0] .
  have a1: "0 < max_attempts (configs ?w1)" using Cons.prems(1) by simp
  have a2: "\<forall>j<length rs. http_get e (length (requested ?w1) + j)
           ((offset + ?L) + int j * limit (configs ?w1)) (limit (configs ?w1)) ds de
             = Some (rs ! j)"
  proof (intro allI impI)
    fix j assume "j < length rs"
    then have "http_get e (length (requested w) + Suc j)
           (offset + int (Suc j) * ?L) ?L ds de = Some ((r # rs) ! Suc j)"
      using Cons.prems(2) [rule_format, of "Suc j"] by simp
    then show "http_get e (length (requested ?w1) + j)
           ((offset + ?L) + int j * limit (configs ?w1)) (limit (configs ?w1)) ds de
             = Some (rs ! j)"
      by (simp add: algebra_simps)
  qed
  have a3: "\<forall>j<length rs. full_page (rs ! j)"
  proof (intro allI impI)
    fix j assume "j < length rs"
    then show "full_page (rs ! j)" using Cons.prems(3) [rule_format, of "Suc j"] by simp
  qed
  have a4: "\<forall>j<length rs. write_outcome e (n_writes ?w1 + j) = Written"
  proof (intro allI impI)
    fix j assume "j < length rs"
    then show "write_outcome e (n_writes ?w1 + j) = Written"
      using Cons.prems(4) [rule_format, of "Suc j"] by simp
  qed
  from Cons.IH [OF a1 a2 a3 a4]
  obtain wn where run1: "offsets_loop (length rs + k) e ds de (offset + ?L) ?w1
               = offsets_loop k e ds de ((offset + ?L) + int (length rs) * limit (configs ?w1)) wn"
      and rq: "requested wn = requested ?w1 @
            map (\<lambda>j. ((offset + ?L) + int j * limit (configs ?w1), limit (configs ?w1), ds, de))
              [0..<length rs]"
      and cs: "csv wn = csv ?w1 @ map (\<lambda>r. (ds, ItemsModel_to_list (accepted_rows r))) rs"
      and cf: "configs wn =
            (if rs = [] then configs ?w1
             else (configs ?w1)\<lparr>total_value :=
                     total_value (configs ?w1) + sum_list (map (\<lambda>r. len (accepted_rows r)) rs),
                   last_scraped_date_value := Some (date_to_string de)\<rparr>)"
      and fl: "config_file wn = (if rs = [] then config_file ?w1 else Some (configs wn))"
      and nw: "n_writes wn = n_writes ?w1 + length rs"
      and rest: "n_clock wn = n_clock ?w1" "worked wn = worked ?w1" "slept wn = slept ?w1"
    by blast
  have run: "offsets_loop (length (r # rs) + k) e ds de offset w
               = offsets_loop k e ds de (offset + int (length (r # rs)) * ?L) wn"
    using p run1 by (simp add: algebra_simps)
  have rq': "requested wn = requested w @
            map (\<lambda>j. (offset + int j * ?L, ?L, ds, de)) [0..<length (r # rs)]"
    using rq by (simp add: map_upt_Suc [of _ "length rs"] algebra_simps del: upt_Suc)
  have cs': "csv wn = csv w @ map (\<lambda>r. (ds, ItemsModel_to_list (accepted_rows r))) (r # rs)"
    using cs by simp
  have cf': "configs wn = (configs w)\<lparr>total_value :=
                     total_value (configs w) + sum_list (map (\<lambda>r. len (accepted_rows r)) (r # rs)),
                   last_scraped_date_value := Some (date_to_string de)\<rparr>"
    using cf by (simp add: algebra_simps)
  have fl': "config_file wn = Some (configs wn)"
    using fl cf by (simp split: if_splits)
  show ?case
    by (intro exI [where x = wn]) (use run rq' cs' cf' fl' nw rest in simp)
qed

lemma page_frame:
  assumes "page e ds de offset w = (r, w1)"
  shows "n_clock w1 = n_clock w \<and> worked w1 = worked w \<and> slept w1 = slept w
       \<and> limit (configs w1) = limit (configs w)
       \<and> max_attempts (configs w1) = max_attempts (configs w)
       \<and> time_delta (configs w1) = time_delta (configs w)
       \<and> start_date_value (configs w1) = start_date_value (configs w)
       \<and> n_writes w \<le> n_writes w1
       \<and> (if n_writes w1 = n_writes w
           then configs w1 = configs w \<and> config_file w1 = config_file w \<and> csv w1 = csv w
           else last_scraped_date_value (configs w1) = Some (date_to_string de))"
  using assms
  by (auto simp add: page_def Saver_call_def update_def Let_def
      dest!: Requester_call_frame
      split: prod.splits outcome.splits if_splits write_result.splits)

lemma offsets_loop_frame:
  assumes "offsets_loop fuel e ds de offset w = Some (r, w')"
  shows "n_clock w' = n_clock w \<and> worked w' = worked w \<and> slept w' = slept w
       \<and> limit (configs w') = limit (configs w)
       \<and> max_attempts (configs w') = max_attempts (configs w)
       \<and> time_delta (configs w') = time_delta (configs w)
       \<and> start_date_value (configs w') = start_date_value (configs w)
       \<and> n_writes w \<le> n_writes w'
       \<and> (if n_writes w' = n_writes w
           then configs w' = configs w \<and> config_file w' = config_file w \<and> csv w' = csv w
           else last_scraped_date_value (configs w') = Some (date_to_string de))"
  using assms
proof (induction fuel arbitrary: offset w)
  case 0
  then show ?case by simp
next
  case (Suc fuel)
  obtain r1 w1 where p: "page e ds de offset w = (r1, w1)" by (cases "page e ds de offset w")
  note f1 = page_frame [OF p]
  show ?case
  proof (cases "r1 = Returned Continue")
    case True
    with Suc.prems p have "offsets_loop fuel e ds de (offset + limit (configs w1)) w1 = Some (r, w')"
      by simp
    from Suc.IH [OF this] f1 show ?thesis by (auto split: if_splits)
  next
    case False
    with Suc.prems p have "w' = w1"
      by (cases r1) (auto split: signal.splits)
    with f1 show ?thesis by simp
  qed
qed

lemma parse_empty_headline:
  "parse_data empty_headline_raw = Returned (valid_item\<lparr>headline := Some []\<rparr>)"
  by (simp add: parse_data_def empty_headline_raw_def valid_raw_def valid_item_def dict_get_def
     int_of_def then_do_def construct_content_text_def iterate_def dict_getitem_def
     element_text_def to_unix_timestamp_def construct_sections_text_def construct_tags_text_def
     construct_authors_text_def names_of_def parse_seo_data_def Let_def)

lemma acceptable_valid_item: "is_acceptable valid_item = 4"
  by (simp add: is_acceptable_def valid_item_def)

lemma acceptable_empty_headline: "is_acceptable (valid_item\<lparr>headline := Some []\<rparr>) = 0"
  by (simp add: is_acceptable_def valid_item_def)

lemma Processor_call_valid: "Processor_call [valid_raw] = Returned [valid_item]"
  by (simp add: Processor_call_def parse_valid then_do_def add_def ItemsModel_init_def
      acceptable_valid_item)

lemma Processor_call_empty_headline: "Processor_call [empty_headline_raw] = Returned []"
  by (simp add: Processor_call_def parse_empty_headline then_do_def add_def ItemsModel_init_def
      acceptable_empty_headline)

lemma Processor_call_mixed: "Processor_call [valid_raw, empty_headline_raw] = Returned [valid_item]"
  by (simp add: Processor_call_def parse_valid parse_empty_headline then_do_def add_def
      ItemsModel_init_def acceptable_valid_item acceptable_empty_headline)

lemma is_acceptable_iff:
  "is_acceptable item \<noteq> 0 \<longleftrightarrow>
     (\<exists>h c. headline item = Some h \<and> content item = Some c \<and> h \<noteq> [] \<and> c \<noteq> [])"
  by (auto simp add: is_acceptable_def split: option.splits)

lemma is_acceptable_has: "is_acceptable item \<noteq> 0 \<longleftrightarrow> has_headline_and_content item"
  by (auto simp add: is_acceptable_def has_headline_and_content_def split: option.splits)

lemma add_keeps_invariant:
  "list_all has_headline_and_content items \<Longrightarrow> list_all has_headline_and_content (add items item)"
  using is_acceptable_has [of item] by (simp add: add_def)

lemma Processor_loop_invariant:
  "list_all has_headline_and_content acc \<Longrightarrow> Processor_loop raw_items acc = Returned out
     \<Longrightarrow> list_all has_headline_and_content out"
proof (induction raw_items arbitrary: acc)
  case Nil
  then show ?case by simp
next
  case (Cons raw_item rest)
  then obtain item where "parse_data raw_item = Returned item"
      and "Processor_loop rest (add acc item) = Returned out"
    by (cases "parse_data raw_item") (auto simp add: then_do_def)
  with Cons.IH [of "add acc item"] add_keeps_invariant [OF Cons.prems(1)] show ?case by simp
qed

lemma Processor_call_invariant:
  "Processor_call raw_items = Returned out \<Longrightarrow> list_all has_headline_and_content out"
  using Processor_loop_invariant [of "[]" raw_items out]
  by (simp add: Processor_call_def ItemsModel_init_def)

lemma to_list_row:
  "has_headline_and_content item \<Longrightarrow> row_has_headline_and_content (to_list item)"
  by (auto simp add: has_headline_and_content_def row_has_headline_and_content_def to_list_def
      COLUMN_NAMES_def str_cell_def split: option.splits)

lemma ItemsModel_to_list_rows:
  "list_all has_headline_and_content items
     \<Longrightarrow> list_all row_has_headline_and_content (ItemsModel_to_list items)"
  by (simp add: ItemsModel_to_list_def list_all_iff to_list_row)

lemma page_rows_ok:
  assumes "page e ds de offset w = (r, w1)" and "rows_ok w"
  shows "rows_ok w1"
  using assms
  by (auto simp add: page_def Saver_call_def update_def Let_def rows_ok_def
      dest!: Requester_call_frame Processor_call_invariant ItemsModel_to_list_rows
      split: prod.splits outcome.splits if_splits write_result.splits)

lemma offsets_loop_rows_ok:
  assumes "offsets_loop fuel e ds de offset w = Some (r, w')" and "rows_ok w"
  shows "rows_ok w'"
  using assms
proof (induction fuel arbitrary: offset w)
  case 0
  then show ?case by simp
next
  case (Suc fuel)
  obtain r1 w1 where p: "page e ds de offset w = (r1, w1)" by (cases "page e ds de offset w")
  note ok1 = page_rows_ok [OF p Suc.prems(2)]
  show ?case
  proof (cases "r1 = Returned Continue")
    case True
    with Suc.prems p have "offsets_loop fuel e ds de (offset + limit (configs w1)) w1 = Some (r, w')"
      by simp
    from Suc.IH [OF this ok1] show ?thesis .
  next
    case False
    with Suc.prems p have "w' = w1"
      by (cases r1) (auto split: signal.splits)
    with ok1 show ?thesis by simp
  qed
qed

lemma begin_loop_rows_ok:
  assumes "begin_loop page_fuel fuel e g w = Some w'" and "rows_ok w"
  shows "rows_ok w'"
  using assms
proof (induction fuel arbitrary: g w)
  case 0
  then show ?case by simp
next
  case (Suc fuel)
  show ?case
  proof (cases "date_iterable_next e g w")
    case (Pair y w1)
    have ok1: "rows_ok w1" using Pair Suc.prems(2)
      by (auto simp add: date_iterable_next_def Let_def rows_ok_def split: if_splits)
    show ?thesis
    proof (cases y)
      case None
      with Pair Suc.prems ok1 show ?thesis by simp
    next
      case (Some dg)
      obtain date_start g1 where dg: "dg = (date_start, g1)" by (cases dg)
      let ?de = "date_start + time_delta (configs w1)"
      let ?w2 = "w1\<lparr>worked := worked w1 @ [(date_start, ?de)]\<rparr>"
      have ok2: "rows_ok ?w2" using ok1 by (simp add: rows_ok_def)
      from Suc.prems(1) Pair Some dg obtain r w3
        where f: "fetch_articles_in_date_range page_fuel e date_start ?de ?w2 = Some (r, w3)"
          and b: "begin_loop page_fuel fuel e g1 w3 = Some w'"
        by (auto simp add: Let_def split: option.splits)
      from offsets_loop_rows_ok [OF f [unfolded fetch_articles_in_date_range_def] ok2]
      have "rows_ok w3" .
      from Suc.IH [OF b this] show ?thesis .
    qed
  qed
qed

lemma Processor_loop_filter:
  "Processor_loop raw_items acc = Returned out
     \<longleftrightarrow> (\<exists>parsed. map parse_data raw_items = map Returned parsed
            \<and> out = acc @ filter (\<lambda>item. is_acceptable item \<noteq> 0) parsed)"
proof (induction raw_items arbitrary: acc)
  case Nil
  then show ?case by auto
next
  case (Cons raw_item rest)
  show ?case
  proof (cases "parse_data raw_item")
    case (Raised ex)
    then show ?thesis by (auto simp add: then_do_def map_eq_Cons_conv)
  next
    case (Returned item)
    have "(\<exists>parsed. map parse_data (raw_item # rest) = map Returned parsed
            \<and> out = acc @ filter (\<lambda>item. is_acceptable item \<noteq> 0) parsed)
       \<longleftrightarrow> (\<exists>parsed'. map parse_data rest = map Returned parsed'
            \<and> out = add acc item @ filter (\<lambda>item. is_acceptable item \<noteq> 0) parsed')"
      using Returned by (auto simp add: map_eq_Cons_conv Cons_eq_map_conv add_def)
    with Cons.IH [of "add acc item"] Returned show ?thesis
      by (simp add: then_do_def)
  qed
qed

lemma Processor_call_filter:
  "Processor_call raw_items = Returned out
     \<longleftrightarrow> (\<exists>parsed. map parse_data raw_items = map Returned parsed
            \<and> out = filter (\<lambda>item. is_acceptable item \<noteq> 0) parsed)"
  using Processor_loop_filter [of raw_items "[]" out]
  by (simp add: Processor_call_def ItemsModel_init_def)

lemma one_page_fetch:
  "fetch_articles_in_date_range 2 (one_page_env [valid_raw, empty_headline_raw])
      ds de example_world
   = Some (Returned (),
       example_world\<lparr>requested := [(0, 5, ds, de), (5, 5, ds, de)],
         csv := [(ds, [to_list valid_item])],
         configs := example_configs\<lparr>total_value := 1,
                      last_scraped_date_value := Some (date_to_string de)\<rparr>,
         n_writes := Suc 0,
         config_file := Some (example_configs\<lparr>total_value := 1,
                      last_scraped_date_value := Some (date_to_string de)\<rparr>)\<rparr>)"
proof -
  let ?e = "one_page_env [valid_raw, empty_headline_raw]"
  have p1: "page ?e ds de 0 example_world =
     (Returned Continue,
       example_world\<lparr>requested := [(0, 5, ds, de)],
         csv := [(ds, [to_list valid_item])],
         configs := example_configs\<lparr>total_value := 1,
                      last_scraped_date_value := Some (date_to_string de)\<rparr>,
         n_writes := Suc 0,
         config_file := Some (example_configs\<lparr>total_value := 1,
                      last_scraped_date_value := Some (date_to_string de)\<rparr>)\<rparr>)"
    by (simp add: page_def Requester_call_cases one_page_env_def example_world_def
        example_configs_def max_attempts_def limit_def then_do_def dict_getitem_def int_of_def
        iterate_def Processor_call_mixed Saver_call_def update_def Let_def len_def
        ItemsModel_to_list_def)
  have p2: "page ?e ds de 5 (example_world\<lparr>requested := [(0, 5, ds, de)],
         csv := [(ds, [to_list valid_item])],
         configs := example_configs\<lparr>total_value := 1,
                      last_scraped_date_value := Some (date_to_string de)\<rparr>,
         n_writes := Suc 0,
         config_file := Some (example_configs\<lparr>total_value := 1,
                      last_scraped_date_value := Some (date_to_string de)\<rparr>)\<rparr>) =
     (Returned Break,
       example_world\<lparr>requested := [(0, 5, ds, de), (5, 5, ds, de)],
         csv := [(ds, [to_list valid_item])],
         configs := example_configs\<lparr>total_value := 1,
                      last_scraped_date_value := Some (date_to_string de)\<rparr>,
         n_writes := Suc 0,
         config_file := Some (example_configs\<lparr>total_value := 1,
                      last_scraped_date_value := Some (date_to_string de)\<rparr>)\<rparr>)"
    by (simp add: page_def Requester_call_cases one_page_env_def example_world_def
        example_configs_def max_attempts_def limit_def then_do_def dict_getitem_def int_of_def)
  have l: "limit example_configs = 5"
    by (simp add: limit_def example_configs_def)
  show ?thesis
    by (simp add: fetch_articles_in_date_range_def numeral_2_eq_2 p1 p2 l)
qed

lemma date_roundtrip_iff:
  "string_to_date (date_to_string d) = d \<longleftrightarrow> d mod us_per_day = 0"
proof
  assume "string_to_date (date_to_string d) = d"
  then have "d = (d div us_per_day) * us_per_day"
    by (simp add: string_to_date_def date_to_string_def)
  then have "d mod us_per_day = ((d div us_per_day) * us_per_day) mod us_per_day" by simp
  then show "d mod us_per_day = 0" by simp
next
  assume "d mod us_per_day = 0"
  then show "string_to_date (date_to_string d) = d" by (rule midnight_roundtrip)
qed

lemma offsets_loop_pages:
  assumes "0 < max_attempts (configs w)"
    and "\<forall>j<length rs. http_get e (length (requested w) + j)
           (offset + int j * limit (configs w)) (limit (configs w)) ds de = Some (rs ! j)"
    and "\<forall>j<length rs. full_page (rs ! j)"
    and "\<forall>j<length rs. write_outcome e (n_writes w + j) = Written"
    and "http_get e (length (requested w) + length rs)
           (offset + int (length rs) * limit (configs w)) (limit (configs w)) ds de = Some r_end"
    and "exhausted r_end"
    and "length rs < fuel"
  shows "\<exists>w'. offsets_loop fuel e ds de offset w = Some (Returned (), w')
      \<and> requested w' = requested w @
            map (\<lambda>j. (offset + int j * limit (configs w), limit (configs w), ds, de))
              [0..<Suc (length rs)]
      \<and> csv w' = csv w @ map (\<lambda>r. (ds, ItemsModel_to_list (accepted_rows r))) rs
      \<and> configs w' =
            (if rs = [] then configs w
             else (configs w)\<lparr>total_value :=
                     total_value (configs w) + sum_list (map (\<lambda>r. len (accepted_rows r)) rs),
                   last_scraped_date_value := Some (date_to_string de)\<rparr>)
      \<and> config_file w' = (if rs = [] then config_file w else Some (configs w'))
      \<and> n_writes w' = n_writes w + length rs
      \<and> n_clock w' = n_clock w \<and> worked w' = worked w \<and> slept w' = slept w"
proof -
  from assms(7) obtain k where k: "fuel = length rs + Suc k"
    by (metis add_Suc_right less_iff_Suc_add)
  from offsets_loop_prefix [OF assms(1-4), of "Suc k"]
  obtain wn where run: "offsets_loop (length rs + Suc k) e ds de offset w
               = offsets_loop (Suc k) e ds de (offset + int (length rs) * limit (configs w)) wn"
      and rq: "requested wn = requested w @
            map (\<lambda>j. (offset + int j * limit (configs w), limit (configs w), ds, de))
              [0..<length rs]"
      and cs: "csv wn = csv w @ map (\<lambda>r. (ds, ItemsModel_to_list (accepted_rows r))) rs"
      and cf: "configs wn =
            (if rs = [] then configs w
             else (configs w)\<lparr>total_value :=
                     total_value (configs w) + sum_list (map (\<lambda>r. len (accepted_rows r)) rs),
                   last_scraped_date_value := Some (date_to_string de)\<rparr>)"
      and fl: "config_file wn = (if rs = [] then config_file w else Some (configs wn))"
      and nw: "n_writes wn = n_writes w + length rs"
      and rest: "n_clock wn = n_clock w" "worked wn = worked w" "slept wn = slept w"
    by blast
  have lm: "limit (configs wn) = limit (configs w)" "max_attempts (configs wn) = max_attempts (configs w)"
    using cf by (simp_all split: if_splits)
  have "page e ds de (offset + int (length rs) * limit (configs w)) wn =
     (Returned Break, wn\<lparr>requested := requested wn @
        [(offset + int (length rs) * limit (configs w), limit (configs wn), ds, de)]\<rparr>)"
    using assms(1,5,6) rq lm by (intro page_exhausted [where r = r_end]) simp_all
  then have "offsets_loop fuel e ds de offset w = Some (Returned (),
       wn\<lparr>requested := requested wn @
        [(offset + int (length rs) * limit (configs w), limit (configs wn), ds, de)]\<rparr>)"
    using run k by simp
  then show ?thesis
    using rq cs cf fl nw rest lm by simp
qed


lemma full_page_rejected:
  "full_page \<lparr>resp_total = Val 2, resp_items = Val [empty_headline_raw]\<rparr>"
  "accepted_rows \<lparr>resp_total = Val 2, resp_items = Val [empty_headline_raw]\<rparr> = []"
  by (simp_all add: full_page_def accepted_rows_def Processor_call_empty_headline)

lemma full_page_valid:
  "full_page \<lparr>resp_total = Val 2, resp_items = Val [valid_raw]\<rparr>"
  "accepted_rows \<lparr>resp_total = Val 2, resp_items = Val [valid_raw]\<rparr> = [valid_item]"
  by (simp_all add: full_page_def accepted_rows_def Processor_call_valid)

lemma date_iterable_run:
  assumes "(case g of Fresh \<Rightarrow> last_scraped_date (configs w)
            | Suspended d \<Rightarrow> d + time_delta (configs w)) = c"
    and "\<forall>k<N. c + int k * time_delta (configs w) < now e (n_clock w + k)"
    and "now e (n_clock w + N) \<le> c + int N * time_delta (configs w)"
    and "N < fuel"
  shows "date_iterable fuel e g w =
     Some (map (\<lambda>k. c + int k * time_delta (configs w)) [0..<N],
           w\<lparr>n_clock := n_clock w + Suc N\<rparr>)"
  using assms
proof (induction N arbitrary: g w c fuel)
  case 0
  then obtain f where f: "fuel = Suc f" by (cases fuel) auto
  from 0 show ?case by (simp add: f date_iterable_next_def Let_def)
next
  case (Suc N)
  then obtain f where f: "fuel = Suc f" and lf: "N < f" by (cases fuel) auto
  let ?w1 = "w\<lparr>n_clock := Suc (n_clock w)\<rparr>"
  have lt: "c < now e (n_clock w)" using Suc.prems(2) [rule_format, of 0] by simp
  have nxt: "date_iterable_next e g w = (Some (c, Suspended c), ?w1)"
    using Suc.prems(1) lt by (simp add: date_iterable_next_def Let_def)
  have a1: "(case Suspended c of Fresh \<Rightarrow> last_scraped_date (configs ?w1)
            | Suspended d \<Rightarrow> d + time_delta (configs ?w1)) = c + time_delta (configs w)"
    by simp
  have a2: "\<forall>k<N. (c + time_delta (configs w)) + int k * time_delta (configs ?w1)
              < now e (n_clock ?w1 + k)"
  proof (intro allI impI)
    fix k assume "k < N"
    then show "(c + time_delta (configs w)) + int k * time_delta (configs ?w1)
              < now e (n_clock ?w1 + k)"
      using Suc.prems(2) [rule_format, of "Suc k"] by (simp add: algebra_simps)
  qed
  have a3: "now e (n_clock ?w1 + N)
      \<le> (c + time_delta (configs w)) + int N * time_delta (configs ?w1)"
    using Suc.prems(3) by (simp add: algebra_simps)
  from Suc.IH [OF a1 a2 a3 lf]
  have "date_iterable f e (Suspended c) ?w1 =
     Some (map (\<lambda>k. (c + time_delta (configs w)) + int k * time_delta (configs ?w1)) [0..<N],
           ?w1\<lparr>n_clock := n_clock ?w1 + Suc N\<rparr>)" .
  then show ?case
    using nxt by (simp add: f map_upt_Suc [of _ N] algebra_simps del: upt_Suc)
qed

lemma begin_loop_worked:
  assumes "(case g of Fresh \<Rightarrow> last_scraped_date (configs w)
            | Suspended d \<Rightarrow> d + time_delta (configs w)) = c"
    and "\<forall>k<N. c + int k * time_delta (configs w) < now e (n_clock w + k)"
    and "now e (n_clock w + N) \<le> c + int N * time_delta (configs w)"
    and "begin_loop page_fuel fuel e g w = Some w'"
  shows "worked w' = worked w @
           map (\<lambda>k. (c + int k * time_delta (configs w),
                      c + int k * time_delta (configs w) + time_delta (configs w))) [0..<N]
       \<and> n_clock w' = n_clock w + Suc N"
  using assms
proof (induction N arbitrary: g w c fuel)
  case 0
  then obtain f where f: "fuel = Suc f" by (cases fuel) auto
  from 0 show ?case by (auto simp add: f date_iterable_next_def Let_def)
next
  case (Suc N)
  then obtain f where f: "fuel = Suc f" by (cases fuel) auto
  let ?d = "time_delta (configs w)"
  let ?w1 = "w\<lparr>n_clock := Suc (n_clock w)\<rparr>"
  let ?w2 = "?w1\<lparr>worked := worked ?w1 @ [(c, c + ?d)]\<rparr>"
  have lt: "c < now e (n_clock w)" using Suc.prems(2) [rule_format, of 0] by simp
  have nxt: "date_iterable_next e g w = (Some (c, Suspended c), ?w1)"
    using Suc.prems(1) lt by (simp add: date_iterable_next_def Let_def)
  from Suc.prems(4) nxt obtain r w3
    where fe: "offsets_loop page_fuel e c (c + ?d) 0 ?w2 = Some (r, w3)"
      and b: "begin_loop page_fuel f e (Suspended c) w3 = Some w'"
    by (auto simp add: f Let_def fetch_articles_in_date_range_def split: option.splits)
  from offsets_loop_frame [OF fe]
  have fr: "n_clock w3 = Suc (n_clock w)" "worked w3 = worked w @ [(c, c + ?d)]"
      "time_delta (configs w3) = ?d"
    by simp_all
  have a1: "(case Suspended c of Fresh \<Rightarrow> last_scraped_date (configs w3)
            | Suspended d \<Rightarrow> d + time_delta (configs w3)) = c + ?d"
    using fr by simp
  have a2: "\<forall>k<N. (c + ?d) + int k * time_delta (configs w3) < now e (n_clock w3 + k)"
  proof (intro allI impI)
    fix k assume "k < N"
    then show "(c + ?d) + int k * time_delta (configs w3) < now e (n_clock w3 + k)"
      using Suc.prems(2) [rule_format, of "Suc k"] fr by (simp add: algebra_simps)
  qed
  have a3: "now e (n_clock w3 + N) \<le> (c + ?d) + int N * time_delta (configs w3)"
    using Suc.prems(3) fr by (simp add: algebra_simps)
  from Suc.IH [OF a1 a2 a3 b] fr
  show ?case
    by (simp add: map_upt_Suc [of _ N] algebra_simps del: upt_Suc)
qed

lemma zero_width_never_ends:
  assumes "configs w = example_configs\<lparr>threshold_value := 0\<rparr>"
    and "g = Fresh \<or> g = Suspended (string_to_date 737425)"
  shows "date_iterable fuel failing_env g w = None"
  using assms
proof (induction fuel arbitrary: g w)
  case 0
  then show ?case by simp
next
  case (Suc fuel)
  have nxt: "date_iterable_next failing_env g w =
      (Some (string_to_date 737425, Suspended (string_to_date 737425)),
       w\<lparr>n_clock := Suc (n_clock w)\<rparr>)"
    using Suc.prems
    by (auto simp add: date_iterable_next_def Let_def last_scraped_date_def time_delta_def
        timedelta_days_def example_configs_def failing_env_def string_to_date_def us_per_day_def)
  have "date_iterable fuel failing_env (Suspended (string_to_date 737425))
          (w\<lparr>n_clock := Suc (n_clock w)\<rparr>) = None"
    using Suc.prems(1) by (intro Suc.IH) simp_all
  with nxt show ?case by simp
qed

lemma ticking_run:
  "Scraper_begin 1 4 ticking_env example_world =
     Some (example_world\<lparr>
       requested := [(0, 5, string_to_date 737425, string_to_date 737426),
                     (0, 5, string_to_date 737426, string_to_date 737427),
                     (0, 5, string_to_date 737427, string_to_date 737428)],
       n_clock := 4,
       worked := [(string_to_date 737425, string_to_date 737426),
                  (string_to_date 737426, string_to_date 737427),
                  (string_to_date 737427, string_to_date 737428)]\<rparr>)"
  by (simp add: Scraper_begin_def eval_nat_numeral date_iterable_next_def Let_def
      fetch_articles_in_date_range_def page_def Requester_call_cases ticking_env_def
      example_world_def example_configs_def max_attempts_def limit_def then_do_def
      dict_getitem_def int_of_def last_scraped_date_def time_delta_def timedelta_days_def
      string_to_date_def us_per_day_def)

lemma page_requested:
  assumes "page e ds de offset w = (r, w1)"
  shows "length (requested w) \<le> length (requested w1)
       \<and> ((\<exists>s. r = Returned s) \<longrightarrow>
            requested w1 = requested w @ [(offset, limit (configs w), ds, de)])"
  using assms
  by (auto simp add: page_def Requester_call_cases Saver_call_def update_def Let_def
      split: prod.splits outcome.splits if_splits write_result.splits option.splits)

lemma offsets_loop_requested:
  assumes "offsets_loop fuel e ds de offset w = Some (r, w')"
  shows "length (requested w) \<le> length (requested w')
       \<and> (r = Returned () \<longrightarrow> length (requested w) < length (requested w'))"
  using assms
proof (induction fuel arbitrary: offset w)
  case 0
  then show ?case by simp
next
  case (Suc fuel)
  obtain r1 w1 where p: "page e ds de offset w = (r1, w1)" by (cases "page e ds de offset w")
  note q = page_requested [OF p]
  show ?case
  proof (cases r1)
    case (Raised ex)
    with Suc.prems p q show ?thesis by auto
  next
    case (Returned s)
    show ?thesis
    proof (cases s)
      case Break
      with Returned Suc.prems p q show ?thesis by auto
    next
      case Continue
      with Returned Suc.prems p
      have "offsets_loop fuel e ds de (offset + limit (configs w1)) w1 = Some (r, w')" by simp
      from Suc.IH [OF this] q Returned show ?thesis by auto
    qed
  qed
qed

lemma offsets_loop_total_zero:
  assumes "0 < max_attempts (configs w)"
    and "http_get e (length (requested w)) offset (limit (configs w)) ds de = Some r"
    and "resp_total r = Val 0"
  shows "offsets_loop (Suc fuel) e ds de offset w =
     Some (Returned (), w\<lparr>requested := requested w @ [(offset, limit (configs w), ds, de)]\<rparr>)"
  using assms
  by (simp add: page_def Requester_call_cases then_do_def dict_getitem_def int_of_def)

lemma offsets_loop_ends_iff:
  assumes "0 < max_attempts (configs w)"
    and "http_get e (length (requested w)) offset (limit (configs w)) ds de
           = Some \<lparr>resp_total = Val t, resp_items = Val raw_items\<rparr>"
  shows "offsets_loop (Suc fuel) e ds de offset w =
           Some (Returned (),
                 w\<lparr>requested := requested w @ [(offset, limit (configs w), ds, de)]\<rparr>)
         \<longleftrightarrow> t = 0 \<or> raw_items = []"
proof (cases "t = 0 \<or> raw_items = []")
  case True
  with assms show ?thesis
    by (auto simp add: page_def Requester_call_cases then_do_def dict_getitem_def int_of_def
        iterate_def)
next
  case False
  obtain r1 w1 where p: "page e ds de offset w = (r1, w1)" by (cases "page e ds de offset w")
  have nb: "r1 \<noteq> Returned Break"
    using p assms False
    by (auto simp add: page_def Requester_call_cases then_do_def dict_getitem_def int_of_def
        iterate_def Saver_call_def update_def Let_def
        split: outcome.splits write_result.splits)
  have "offsets_loop (Suc fuel) e ds de offset w \<noteq>
           Some (Returned (),
                 w\<lparr>requested := requested w @ [(offset, limit (configs w), ds, de)]\<rparr>)"
  proof (cases r1)
    case (Raised ex)
    with p show ?thesis by simp
  next
    case (Returned s)
    with nb have s: "s = Continue" by (cases s) auto
    from page_requested [OF p] Returned
    have rq: "requested w1 = requested w @ [(offset, limit (configs w), ds, de)]" by simp
    show ?thesis
    proof
      assume "offsets_loop (Suc fuel) e ds de offset w =
           Some (Returned (),
                 w\<lparr>requested := requested w @ [(offset, limit (configs w), ds, de)]\<rparr>)"
      with p Returned s
      have "offsets_loop fuel e ds de (offset + limit (configs w1)) w1 =
           Some (Returned (),
                 w\<lparr>requested := requested w @ [(offset, limit (configs w), ds, de)]\<rparr>)"
        by simp
      from offsets_loop_requested [OF this] rq show False by simp
    qed
  qed
  with False show ?thesis by simp
qed



lemma page_write_fails:
  assumes "0 < max_attempts (configs w)"
    and "http_get e (length (requested w)) offset (limit (configs w)) ds de = Some r"
    and "full_page r"
    and "write_outcome e (n_writes w) \<noteq> Written"
  shows "page e ds de offset w =
     (Raised OSError,
      w\<lparr>requested := requested w @ [(offset, limit (configs w), ds, de)],
        csv := csv w @ [(ds, ItemsModel_to_list (accepted_rows r))],
        configs := (configs w)\<lparr>total_value := total_value (configs w) + len (accepted_rows r),
                                last_scraped_date_value := Some (date_to_string de)\<rparr>,
        n_writes := Suc (n_writes w),
        config_file := (if write_outcome e (n_writes w) = OpenFailed then config_file w
                        else None)\<rparr>)"
  using assms
  by (auto simp add: page_def Requester_call_cases full_page_def accepted_rows_def then_do_def
      dict_getitem_def int_of_def iterate_def Saver_call_def update_def Let_def
      split: field.splits outcome.splits write_result.splits)

lemma offsets_loop_pages_write_failed:
  assumes "0 < max_attempts (configs w)"
    and "\<forall>j<length rs. http_get e (length (requested w) + j)
           (offset + int j * limit (configs w)) (limit (configs w)) ds de = Some (rs ! j)"
    and "\<forall>j<length rs. full_page (rs ! j)"
    and "\<forall>j<length rs. write_outcome e (n_writes w + j) = Written"
    and "http_get e (length (requested w) + length rs)
           (offset + int (length rs) * limit (configs w)) (limit (configs w)) ds de = Some r"
    and "full_page r"
    and "write_outcome e (n_writes w + length rs) \<noteq> Written"
    and "length rs < fuel"
  shows "\<exists>w'. offsets_loop fuel e ds de offset w = Some (Raised OSError, w')
      \<and> requested w' = requested w @
            map (\<lambda>j. (offset + int j * limit (configs w), limit (configs w), ds, de))
              [0..<Suc (length rs)]
      \<and> csv w' = csv w @ map (\<lambda>r. (ds, ItemsModel_to_list (accepted_rows r))) (rs @ [r])
      \<and> configs w' = (configs w)\<lparr>total_value :=
                     total_value (configs w)
                       + sum_list (map (\<lambda>r. len (accepted_rows r)) (rs @ [r])),
                   last_scraped_date_value := Some (date_to_string de)\<rparr>
      \<and> config_file w' =
           (if write_outcome e (n_writes w + length rs) = OpenFailed
            then (if rs = [] then config_file w
                  else Some ((configs w)\<lparr>total_value :=
                     total_value (configs w) + sum_list (map (\<lambda>r. len (accepted_rows r)) rs),
                   last_scraped_date_value := Some (date_to_string de)\<rparr>))
            else None)"
proof -
  from assms(8) obtain k where k: "fuel = length rs + Suc k"
    by (metis add_Suc_right less_iff_Suc_add)
  from offsets_loop_prefix [OF assms(1-4), of "Suc k"]
  obtain wn where run: "offsets_loop (length rs + Suc k) e ds de offset w
               = offsets_loop (Suc k) e ds de (offset + int (length rs) * limit (configs w)) wn"
      and rq: "requested wn = requested w @
            map (\<lambda>j. (offset + int j * limit (configs w), limit (configs w), ds, de))
              [0..<length rs]"
      and cs: "csv wn = csv w @ map (\<lambda>r. (ds, ItemsModel_to_list (accepted_rows r))) rs"
      and cf: "configs wn =
            (if rs = [] then configs w
             else (configs w)\<lparr>total_value :=
                     total_value (configs w) + sum_list (map (\<lambda>r. len (accepted_rows r)) rs),
                   last_scraped_date_value := Some (date_to_string de)\<rparr>)"
      and fl: "config_file wn = (if rs = [] then config_file w else Some (configs wn))"
      and nw: "n_writes wn = n_writes w + length rs"
    by blast
  have lm: "limit (configs wn) = limit (configs w)"
      "max_attempts (configs wn) = max_attempts (configs w)"
    using cf by (simp_all split: if_splits)
  have a1: "0 < max_attempts (configs wn)" using assms(1) lm by simp
  have a2: "http_get e (length (requested wn))
      (offset + int (length rs) * limit (configs w)) (limit (configs wn)) ds de = Some r"
    using assms(5) rq lm by simp
  have a4: "write_outcome e (n_writes wn) \<noteq> Written" using assms(7) nw by simp
  from page_write_fails [OF a1 a2 assms(6) a4] run k
  have "offsets_loop fuel e ds de offset w = Some (Raised OSError,
      wn\<lparr>requested := requested wn @
          [(offset + int (length rs) * limit (configs w), limit (configs wn), ds, de)],
        csv := csv wn @ [(ds, ItemsModel_to_list (accepted_rows r))],
        configs := (configs wn)\<lparr>total_value := total_value (configs wn) + len (accepted_rows r),
                                last_scraped_date_value := Some (date_to_string de)\<rparr>,
        n_writes := Suc (n_writes wn),
        config_file := (if write_outcome e (n_writes wn) = OpenFailed then config_file wn
                        else None)\<rparr>)"
    by simp
  then show ?thesis
    using rq cs cf fl nw lm by (auto simp add: algebra_simps)
qed

lemma begin_loop_window_raises:
  assumes "date_iterable_next e g w = (Some (ds, g1), w1)"
    and "fetch_articles_in_date_range page_fuel e ds (ds + time_delta (configs w1))
           (w1\<lparr>worked := worked w1 @ [(ds, ds + time_delta (configs w1))]\<rparr>)
         = Some (Raised ex, w3)"
  shows "begin_loop page_fuel (Suc fuel) e g w = begin_loop page_fuel fuel e g1 w3"
  using assms by (simp add: Let_def)

lemma begin_loop_windows:
  assumes m: "0 < max_attempts (configs w)"
    and wr: "\<forall>n. write_outcome e n = Written"
    and gen: "(case g of Fresh \<Rightarrow> last_scraped_date (configs w)
               | Suspended d \<Rightarrow> d + time_delta (configs w)) = c"
    and ne: "\<forall>k<length wins. wins ! k \<noteq> [] \<and> (\<forall>j<length (wins ! k). full_page (wins ! k ! j))
               \<and> length (wins ! k) < page_fuel"
    and pg: "\<forall>k<length wins. \<forall>j<length (wins ! k). \<forall>n.
               http_get e n (int j * limit (configs w)) (limit (configs w))
                 (c + int k * time_delta (configs w))
                 (c + int k * time_delta (configs w) + time_delta (configs w))
               = Some (wins ! k ! j)"
    and ex: "\<forall>k<length wins. \<forall>n. \<exists>r.
               http_get e n (int (length (wins ! k)) * limit (configs w)) (limit (configs w))
                 (c + int k * time_delta (configs w))
                 (c + int k * time_delta (configs w) + time_delta (configs w))
               = Some r \<and> exhausted r"
    and clk: "\<forall>k<length wins. c + int k * time_delta (configs w) < now e (n_clock w + k)"
    and stop: "now e (n_clock w + length wins) \<le> c + int (length wins) * time_delta (configs w)"
    and fu: "length wins < fuel"
  shows "\<exists>w'. begin_loop page_fuel fuel e g w = Some w'
      \<and> configs w' =
           (if wins = [] then configs w
            else (configs w)\<lparr>total_value := total_value (configs w)
                     + sum_list (map (\<lambda>rs. sum_list (map (\<lambda>r. len (accepted_rows r)) rs)) wins),
                   last_scraped_date_value :=
                     Some (date_to_string (c + int (length wins) * time_delta (configs w)))\<rparr>)
      \<and> config_file w' = (if wins = [] then config_file w else Some (configs w'))
      \<and> worked w' = worked w @
           map (\<lambda>k. (c + int k * time_delta (configs w),
                      c + int k * time_delta (configs w) + time_delta (configs w)))
             [0..<length wins]"
  using assms
proof (induction wins arbitrary: g w c fuel)
  case Nil
  then obtain f where f: "fuel = Suc f" by (cases fuel) auto
  from Nil show ?case by (simp add: f date_iterable_next_def Let_def)
next
  case (Cons rs wins)
  then obtain f where f: "fuel = Suc f" and lf: "length wins < f" by (cases fuel) auto
  let ?d = "time_delta (configs w)" and ?L = "limit (configs w)"
  let ?w1 = "w\<lparr>n_clock := Suc (n_clock w)\<rparr>"
  let ?w2 = "?w1\<lparr>worked := worked ?w1 @ [(c, c + ?d)]\<rparr>"
  have lt: "c < now e (n_clock w)" using Cons.prems(7) [rule_format, of 0] by simp
  have nxt: "date_iterable_next e g w = (Some (c, Suspended c), ?w1)"
    using Cons.prems(3) lt by (simp add: date_iterable_next_def Let_def)
  have ne0: "rs \<noteq> []" "\<forall>j<length rs. full_page (rs ! j)" "length rs < page_fuel"
    using Cons.prems(4) [rule_format, of 0] by simp_all
  have b1: "0 < max_attempts (configs ?w2)" using Cons.prems(1) by simp
  have b2: "\<forall>j<length rs. http_get e (length (requested ?w2) + j)
           (0 + int j * limit (configs ?w2)) (limit (configs ?w2)) c (c + ?d) = Some (rs ! j)"
  proof (intro allI impI)
    fix j assume "j < length rs"
    then show "http_get e (length (requested ?w2) + j)
           (0 + int j * limit (configs ?w2)) (limit (configs ?w2)) c (c + ?d) = Some (rs ! j)"
      using Cons.prems(5) [rule_format, of 0 j "length (requested ?w2) + j"] by simp
  qed
  have b4: "\<forall>j<length rs. write_outcome e (n_writes ?w2 + j) = Written"
    using Cons.prems(2) by simp
  from Cons.prems(6) [rule_format, of 0 "length (requested ?w2) + length rs"]
  obtain r_end where b5: "http_get e (length (requested ?w2) + length rs)
           (0 + int (length rs) * limit (configs ?w2)) (limit (configs ?w2)) c (c + ?d)
             = Some r_end"
      and b6: "exhausted r_end"
    by auto
  from offsets_loop_pages [OF b1 b2 _ b4 b5 b6 ne0(3)] ne0(2)
  obtain w3 where w3: "offsets_loop page_fuel e c (c + ?d) 0 ?w2 = Some (Returned (), w3)"
      and cf3: "configs w3 = (configs w)\<lparr>total_value :=
                     total_value (configs w) + sum_list (map (\<lambda>r. len (accepted_rows r)) rs),
                   last_scraped_date_value := Some (date_to_string (c + ?d))\<rparr>"
      and fl3: "config_file w3 = Some (configs w3)"
      and rest3: "n_clock w3 = Suc (n_clock w)" "worked w3 = worked w @ [(c, c + ?d)]"
    using ne0(1) by auto
  have st3: "time_delta (configs w3) = ?d" "limit (configs w3) = ?L"
      "max_attempts (configs w3) = max_attempts (configs w)"
    using cf3 by simp_all
  have run: "begin_loop page_fuel fuel e g w = begin_loop page_fuel f e (Suspended c) w3"
    using nxt w3 by (simp add: f Let_def fetch_articles_in_date_range_def)
  have a1: "0 < max_attempts (configs w3)" using Cons.prems(1) st3 by simp
  have a3: "(case Suspended c of Fresh \<Rightarrow> last_scraped_date (configs w3)
               | Suspended d \<Rightarrow> d + time_delta (configs w3)) = c + ?d"
    using st3 by simp
  have a4: "\<forall>k<length wins. wins ! k \<noteq> [] \<and> (\<forall>j<length (wins ! k). full_page (wins ! k ! j))
               \<and> length (wins ! k) < page_fuel"
  proof (intro allI impI)
    fix k assume "k < length wins"
    then show "wins ! k \<noteq> [] \<and> (\<forall>j<length (wins ! k). full_page (wins ! k ! j))
               \<and> length (wins ! k) < page_fuel"
      using Cons.prems(4) [rule_format, of "Suc k"] by simp
  qed
  have a5: "\<forall>k<length wins. \<forall>j<length (wins ! k). \<forall>n.
               http_get e n (int j * limit (configs w3)) (limit (configs w3))
                 ((c + ?d) + int k * time_delta (configs w3))
                 ((c + ?d) + int k * time_delta (configs w3) + time_delta (configs w3))
               = Some (wins ! k ! j)"
  proof (intro allI impI)
    fix k j n assume "k < length wins" "j < length (wins ! k)"
    then have "http_get e n (int j * ?L) ?L (c + int (Suc k) * ?d) (c + int (Suc k) * ?d + ?d)
               = Some ((rs # wins) ! Suc k ! j)"
      using Cons.prems(5) [rule_format, of "Suc k" j n] by simp
    then show "http_get e n (int j * limit (configs w3)) (limit (configs w3))
                 ((c + ?d) + int k * time_delta (configs w3))
                 ((c + ?d) + int k * time_delta (configs w3) + time_delta (configs w3))
               = Some (wins ! k ! j)"
      by (simp add: st3 algebra_simps)
  qed
  have a6: "\<forall>k<length wins. \<forall>n. \<exists>r.
               http_get e n (int (length (wins ! k)) * limit (configs w3)) (limit (configs w3))
                 ((c + ?d) + int k * time_delta (configs w3))
                 ((c + ?d) + int k * time_delta (configs w3) + time_delta (configs w3))
               = Some r \<and> exhausted r"
  proof (intro allI impI)
    fix k n assume "k < length wins"
    then have "\<exists>r. http_get e n (int (length ((rs # wins) ! Suc k)) * ?L) ?L
                 (c + int (Suc k) * ?d) (c + int (Suc k) * ?d + ?d) = Some r \<and> exhausted r"
      using Cons.prems(6) [rule_format, of "Suc k" n] by simp
    then show "\<exists>r. http_get e n (int (length (wins ! k)) * limit (configs w3))
                 (limit (configs w3))
                 ((c + ?d) + int k * time_delta (configs w3))
                 ((c + ?d) + int k * time_delta (configs w3) + time_delta (configs w3))
               = Some r \<and> exhausted r"
      by (simp add: st3 algebra_simps)
  qed
  have a7: "\<forall>k<length wins. (c + ?d) + int k * time_delta (configs w3) < now e (n_clock w3 + k)"
  proof (intro allI impI)
    fix k assume "k < length wins"
    then show "(c + ?d) + int k * time_delta (configs w3) < now e (n_clock w3 + k)"
      using Cons.prems(7) [rule_format, of "Suc k"] st3 rest3 by (simp add: algebra_simps)
  qed
  have a8: "now e (n_clock w3 + length wins)
      \<le> (c + ?d) + int (length wins) * time_delta (configs w3)"
    using Cons.prems(8) st3 rest3 by (simp add: algebra_simps)
  from Cons.IH [OF a1 Cons.prems(2) a3 a4 a5 a6 a7 a8 lf]
  obtain w' where r': "begin_loop page_fuel f e (Suspended c) w3 = Some w'"
      and cf': "configs w' =
           (if wins = [] then configs w3
            else (configs w3)\<lparr>total_value := total_value (configs w3)
                     + sum_list (map (\<lambda>rs. sum_list (map (\<lambda>r. len (accepted_rows r)) rs)) wins),
                   last_scraped_date_value :=
                     Some (date_to_string ((c + ?d) + int (length wins) * time_delta (configs w3)))\<rparr>)"
      and fl': "config_file w' = (if wins = [] then config_file w3 else Some (configs w'))"
      and wk': "worked w' = worked w3 @
           map (\<lambda>k. ((c + ?d) + int k * time_delta (configs w3),
                      (c + ?d) + int k * time_delta (configs w3) + time_delta (configs w3)))
             [0..<length wins]"
    by blast
  have c1: "configs w' = (configs w)\<lparr>total_value := total_value (configs w)
                     + sum_list (map (\<lambda>rs. sum_list (map (\<lambda>r. len (accepted_rows r)) rs)) (rs # wins)),
                   last_scraped_date_value :=
                     Some (date_to_string (c + int (length (rs # wins)) * ?d))\<rparr>"
    using cf' cf3 st3 by (simp add: algebra_simps)
  have c2: "config_file w' = Some (configs w')"
    using fl' fl3 cf' by (simp split: if_splits)
  have c3: "worked w' = worked w @
           map (\<lambda>k. (c + int k * ?d, c + int k * ?d + ?d)) [0..<length (rs # wins)]"
    using wk' rest3 st3
    by (simp add: map_upt_Suc [of _ "length wins"] algebra_simps del: upt_Suc)
  show ?case
    by (intro exI [where x = w']) (use run r' c1 c2 c3 in simp)
qed

lemma window_start_midnight:
  "(last_scraped_date c + int N * time_delta c) mod us_per_day = 0"
proof -
  have "\<exists>s. last_scraped_date c = s * us_per_day"
    by (cases "last_scraped_date_value c") (auto simp add: last_scraped_date_def string_to_date_def)
  then obtain s where s: "last_scraped_date c = s * us_per_day" by blast
  have "last_scraped_date c + int N * time_delta c
      = (s + int N * threshold_value c) * us_per_day"
    by (simp add: s time_delta_def timedelta_days_def algebra_simps)
  then show ?thesis by simp
qed

lemma begin_loop_windows_prefix:
  assumes m: "0 < max_attempts (configs w)"
    and wr: "\<forall>n. write_outcome e n = Written"
    and gen: "(case g of Fresh \<Rightarrow> last_scraped_date (configs w)
               | Suspended d \<Rightarrow> d + time_delta (configs w)) = c"
    and ne: "\<forall>k<length wins. wins ! k \<noteq> [] \<and> (\<forall>j<length (wins ! k). full_page (wins ! k ! j))
               \<and> length (wins ! k) < page_fuel"
    and pg: "\<forall>k<length wins. \<forall>j<length (wins ! k). \<forall>n.
               http_get e n (int j * limit (configs w)) (limit (configs w))
                 (c + int k * time_delta (configs w))
                 (c + int k * time_delta (configs w) + time_delta (configs w))
               = Some (wins ! k ! j)"
    and ex: "\<forall>k<length wins. \<forall>n. \<exists>r.
               http_get e n (int (length (wins ! k)) * limit (configs w)) (limit (configs w))
                 (c + int k * time_delta (configs w))
                 (c + int k * time_delta (configs w) + time_delta (configs w))
               = Some r \<and> exhausted r"
    and clk: "\<forall>k<length wins. c + int k * time_delta (configs w) < now e (n_clock w + k)"
  shows "\<exists>w'. begin_loop page_fuel (length wins + fuel) e g w
             = begin_loop page_fuel fuel e
                 (if wins = [] then g
                  else Suspended (c + int (length wins) * time_delta (configs w)
                                    - time_delta (configs w))) w'
      \<and> n_clock w' = n_clock w + length wins
      \<and> time_delta (configs w') = time_delta (configs w)
      \<and> configs w' =
           (if wins = [] then configs w
            else (configs w)\<lparr>total_value := total_value (configs w)
                     + sum_list (map (\<lambda>rs. sum_list (map (\<lambda>r. len (accepted_rows r)) rs)) wins),
                   last_scraped_date_value :=
                     Some (date_to_string (c + int (length wins) * time_delta (configs w)))\<rparr>)
      \<and> config_file w' = (if wins = [] then config_file w else Some (configs w'))
      \<and> worked w' = worked w @
           map (\<lambda>k. (c + int k * time_delta (configs w),
                      c + int k * time_delta (configs w) + time_delta (configs w)))
             [0..<length wins]"
  using assms
proof (induction wins arbitrary: g w c)
  case Nil
  show ?case by (intro exI [where x = w]) simp
next
  case (Cons rs wins)
  let ?d = "time_delta (configs w)" and ?L = "limit (configs w)"
  let ?w1 = "w\<lparr>n_clock := Suc (n_clock w)\<rparr>"
  let ?w2 = "?w1\<lparr>worked := worked ?w1 @ [(c, c + ?d)]\<rparr>"
  have lt: "c < now e (n_clock w)" using Cons.prems(7) [rule_format, of 0] by simp
  have nxt: "date_iterable_next e g w = (Some (c, Suspended c), ?w1)"
    using Cons.prems(3) lt by (simp add: date_iterable_next_def Let_def)
  have ne0: "rs \<noteq> []" "\<forall>j<length rs. full_page (rs ! j)" "length rs < page_fuel"
    using Cons.prems(4) [rule_format, of 0] by simp_all
  have b1: "0 < max_attempts (configs ?w2)" using Cons.prems(1) by simp
  have b2: "\<forall>j<length rs. http_get e (length (requested ?w2) + j)
           (0 + int j * limit (configs ?w2)) (limit (configs ?w2)) c (c + ?d) = Some (rs ! j)"
  proof (intro allI impI)
    fix j assume "j < length rs"
    then show "http_get e (length (requested ?w2) + j)
           (0 + int j * limit (configs ?w2)) (limit (configs ?w2)) c (c + ?d) = Some (rs ! j)"
      using Cons.prems(5) [rule_format, of 0 j "length (requested ?w2) + j"] by simp
  qed
  have b4: "\<forall>j<length rs. write_outcome e (n_writes ?w2 + j) = Written"
    using Cons.prems(2) by simp
  from Cons.prems(6) [rule_format, of 0 "length (requested ?w2) + length rs"]
  obtain r_end where b5: "http_get e (length (requested ?w2) + length rs)
           (0 + int (length rs) * limit (configs ?w2)) (limit (configs ?w2)) c (c + ?d)
             = Some r_end"
      and b6: "exhausted r_end"
    by auto
  from offsets_loop_pages [OF b1 b2 _ b4 b5 b6 ne0(3)] ne0(2)
  obtain w3 where w3: "offsets_loop page_fuel e c (c + ?d) 0 ?w2 = Some (Returned (), w3)"
      and cf3: "configs w3 = (configs w)\<lparr>total_value :=
                     total_value (configs w) + sum_list (map (\<lambda>r. len (accepted_rows r)) rs),
                   last_scraped_date_value := Some (date_to_string (c + ?d))\<rparr>"
      and fl3: "config_file w3 = Some (configs w3)"
      and rest3: "n_clock w3 = Suc (n_clock w)" "worked w3 = worked w @ [(c, c + ?d)]"
    using ne0(1) by auto
  have st3: "time_delta (configs w3) = ?d" "limit (configs w3) = ?L"
      "max_attempts (configs w3) = max_attempts (configs w)"
    using cf3 by simp_all
  have run: "begin_loop page_fuel (length (rs # wins) + fuel) e g w
      = begin_loop page_fuel (length wins + fuel) e (Suspended c) w3"
    using nxt w3 by (simp add: Let_def fetch_articles_in_date_range_def)
  have a1: "0 < max_attempts (configs w3)" using Cons.prems(1) st3 by simp
  have a3: "(case Suspended c of Fresh \<Rightarrow> last_scraped_date (configs w3)
               | Suspended d \<Rightarrow> d + time_delta (configs w3)) = c + ?d"
    using st3 by simp
  have a4: "\<forall>k<length wins. wins ! k \<noteq> [] \<and> (\<forall>j<length (wins ! k). full_page (wins ! k ! j))
               \<and> length (wins ! k) < page_fuel"
  proof (intro allI impI)
    fix k assume "k < length wins"
    then show "wins ! k \<noteq> [] \<and> (\<forall>j<length (wins ! k). full_page (wins ! k ! j))
               \<and> length (wins ! k) < page_fuel"
      using Cons.prems(4) [rule_format, of "Suc k"] by simp
  qed
  have a5: "\<forall>k<length wins. \<forall>j<length (wins ! k). \<forall>n.
               http_get e n (int j * limit (configs w3)) (limit (configs w3))
                 ((c + ?d) + int k * time_delta (configs w3))
                 ((c + ?d) + int k * time_delta (configs w3) + time_delta (configs w3))
               = Some (wins ! k ! j)"
  proof (intro allI impI)
    fix k j n assume "k < length wins" "j < length (wins ! k)"
    then have "http_get e n (int j * ?L) ?L (c + int (Suc k) * ?d) (c + int (Suc k) * ?d + ?d)
               = Some ((rs # wins) ! Suc k ! j)"
      using Cons.prems(5) [rule_format, of "Suc k" j n] by simp
    then show "http_get e n (int j * limit (configs w3)) (limit (configs w3))
                 ((c + ?d) + int k * time_delta (configs w3))
                 ((c + ?d) + int k * time_delta (configs w3) + time_delta (configs w3))
               = Some (wins ! k ! j)"
      by (simp add: st3 algebra_simps)
  qed
  have a6: "\<forall>k<length wins. \<forall>n. \<exists>r.
               http_get e n (int (length (wins ! k)) * limit (configs w3)) (limit (configs w3))
                 ((c + ?d) + int k * time_delta (configs w3))
                 ((c + ?d) + int k * time_delta (configs w3) + time_delta (configs w3))
               = Some r \<and> exhausted r"
  proof (intro allI impI)
    fix k n assume "k < length wins"
    then have "\<exists>r. http_get e n (int (length ((rs # wins) ! Suc k)) * ?L) ?L
                 (c + int (Suc k) * ?d) (c + int (Suc k) * ?d + ?d) = Some r \<and> exhausted r"
      using Cons.prems(6) [rule_format, of "Suc k" n] by simp
    then show "\<exists>r. http_get e n (int (length (wins ! k)) * limit (configs w3))
                 (limit (configs w3))
                 ((c + ?d) + int k * time_delta (configs w3))
                 ((c + ?d) + int k * time_delta (configs w3) + time_delta (configs w3))
               = Some r \<and> exhausted r"
      by (simp add: st3 algebra_simps)
  qed
  have a7: "\<forall>k<length wins. (c + ?d) + int k * time_delta (configs w3) < now e (n_clock w3 + k)"
  proof (intro allI impI)
    fix k assume "k < length wins"
    then show "(c + ?d) + int k * time_delta (configs w3) < now e (n_clock w3 + k)"
      using Cons.prems(7) [rule_format, of "Suc k"] st3 rest3 by (simp add: algebra_simps)
  qed
  from Cons.IH [OF a1 Cons.prems(2) a3 a4 a5 a6 a7]
  obtain w' where r': "begin_loop page_fuel (length wins + fuel) e (Suspended c) w3
             = begin_loop page_fuel fuel e
                 (if wins = [] then Suspended c
                  else Suspended ((c + ?d) + int (length wins) * time_delta (configs w3)
                                    - time_delta (configs w3))) w'"
      and nc': "n_clock w' = n_clock w3 + length wins"
      and td': "time_delta (configs w') = time_delta (configs w3)"
      and cf': "configs w' =
           (if wins = [] then configs w3
            else (configs w3)\<lparr>total_value := total_value (configs w3)
                     + sum_list (map (\<lambda>rs. sum_list (map (\<lambda>r. len (accepted_rows r)) rs)) wins),
                   last_scraped_date_value :=
                     Some (date_to_string ((c + ?d) + int (length wins) * time_delta (configs w3)))\<rparr>)"
      and fl': "config_file w' = (if wins = [] then config_file w3 else Some (configs w'))"
      and wk': "worked w' = worked w3 @
           map (\<lambda>k. ((c + ?d) + int k * time_delta (configs w3),
                      (c + ?d) + int k * time_delta (configs w3) + time_delta (configs w3)))
             [0..<length wins]"
    by blast
  have c1: "configs w' = (configs w)\<lparr>total_value := total_value (configs w)
                     + sum_list (map (\<lambda>rs. sum_list (map (\<lambda>r. len (accepted_rows r)) rs)) (rs # wins)),
                   last_scraped_date_value :=
                     Some (date_to_string (c + int (length (rs # wins)) * ?d))\<rparr>"
    using cf' cf3 st3 by (simp add: algebra_simps)
  have c2: "config_file w' = Some (configs w')"
    using fl' fl3 cf' by (simp split: if_splits)
  have c3: "worked w' = worked w @
           map (\<lambda>k. (c + int k * ?d, c + int k * ?d + ?d)) [0..<length (rs # wins)]"
    using wk' rest3 st3
    by (simp add: map_upt_Suc [of _ "length wins"] algebra_simps del: upt_Suc)
  have g': "(if wins = [] then Suspended c
             else Suspended ((c + ?d) + int (length wins) * time_delta (configs w3)
                                    - time_delta (configs w3)))
      = Suspended (c + int (length (rs # wins)) * ?d - ?d)"
    using st3 by (simp add: algebra_simps)
  show ?case
    by (intro exI [where x = w']) (use run r' g' nc' td' rest3 st3 c1 c2 c3 in simp)
qed

section \<open>Progress Store: replaying a commit\<close>

text \<open>
  Claim C9, as stated: after \<^verbatim>\<open>Config.update\<close> has been called twice with the same
  arguments, \<^verbatim>\<open>last_scraped_date\<close> is the datetime \<open>d\<close> that was passed. It is not,
  for a datetime that is not a midnight: the date is stored as the text of its day, so for
  noon of 02-01-2020 \<^verbatim>\<open>last_scraped_date\<close> is 02-01-2020 at midnight.
\<close>

theorem commit_replay_moves_date_to_midnight:
  "last_scraped_date (configs (snd (update failing_env 7 noon_after_start
        (snd (update failing_env 7 noon_after_start example_world)))))
     = string_to_date 737426
   \<and> string_to_date 737426 \<noteq> noon_after_start"
  by (simp add: update_def Let_def last_scraped_date_def failing_env_def example_world_def
      example_configs_def noon_after_start_def string_to_date_def date_to_string_def
      us_per_day_def)

text \<open>
  Claim C9, amended. For every state, every outcome of the two writes and every datetime
  \<open>d\<close>: after one call of \<^verbatim>\<open>Config.update\<close> \<^verbatim>\<open>last_scraped_date\<close> is the midnight of
  the day of \<open>d\<close>, and a second call with the same arguments leaves it there, since the
  day is stored as an absolute value; it is \<open>d\<close> itself exactly when \<open>d\<close> is a midnight.
  The count is not idempotent: it has grown by \<open>a\<close> twice.
\<close>

theorem commit_replay_idempotent_for_date:
  "last_scraped_date (configs (snd (update e a d w))) = string_to_date (date_to_string d)
   \<and> last_scraped_date (configs (snd (update e a d (snd (update e a d w)))))
       = last_scraped_date (configs (snd (update e a d w)))
   \<and> (last_scraped_date (configs (snd (update e a d (snd (update e a d w))))) = d)
       = (d mod us_per_day = 0)
   \<and> total_value (configs (snd (update e a d (snd (update e a d w)))))
       = total_value (configs w) + a + a"
  using date_roundtrip_iff [of d]
  by (simp add: update_def Let_def last_scraped_date_def split: write_result.splits)

section \<open>Fetcher: retries and backoff\<close>

text \<open>
  Claim C3. With \<^verbatim>\<open>max_attempts = 3\<close> and a remote API whose every request fails, the
  claim expects three attempts, two sleeps between them and then the exception for
  exhausted attempts. The code makes one request: \<^verbatim>\<open>wait\<close> raises TypeError from its
  call of \<^verbatim>\<open>logger.log\<close> before it sleeps, and the exception leaves
  \<^verbatim>\<open>Requester.__call__\<close>. No sleep is made and no second attempt.
\<close>

theorem requester_stops_at_first_failure:
  "Requester_call failing_env d1 d2 0 example_world
     = (Raised TypeError, example_world\<lparr>requested := [(0, 5, d1, d2)]\<rparr>)"
  by (simp add: Requester_call_def failing_env_def example_world_def example_configs_def
      max_attempts_def limit_def wait_def Logger_log_def upto.simps)

section \<open>Record Transformer: malformed records\<close>

text \<open>
  Claim C7. The claim expects a malformed record to be dropped without an exception. In
  the code a record without the key \<^verbatim>\<open>sections\<close> raises UnboundLocalError in
  \<^verbatim>\<open>construct_sections_text\<close>, and a record without the key \<^verbatim>\<open>cards\<close> raises
  KeyError in \<^verbatim>\<open>construct_content_text\<close>; the exception leaves the Processor and
  \<^verbatim>\<open>fetch_articles_in_date_range\<close>, so that the page with the valid record before
  it is neither saved nor committed.
\<close>

theorem malformed_record_aborts_window:
  "parse_data no_sections_raw = Raised UnboundLocalError
   \<and> parse_data no_cards_raw = Raised KeyError
   \<and> Processor_call [valid_raw, no_sections_raw] = Raised UnboundLocalError
   \<and> fetch_articles_in_date_range 2 (one_page_env [valid_raw, no_sections_raw]) d1 d2 example_world
       = Some (Raised UnboundLocalError, example_world\<lparr>requested := [(0, 5, d1, d2)]\<rparr>)"
proof -
  have p: "Processor_call [valid_raw, no_sections_raw] = Raised UnboundLocalError"
    by (simp add: Processor_call_def parse_valid parse_no_sections then_do_def)
  have r: "Requester_call (one_page_env [valid_raw, no_sections_raw]) d1 d2 0 example_world
     = (Returned \<lparr>resp_total = Val 2, resp_items = Val [valid_raw, no_sections_raw]\<rparr>,
        example_world\<lparr>requested := [(0, 5, d1, d2)]\<rparr>)"
    by (simp add: Requester_call_def one_page_env_def example_world_def example_configs_def
      max_attempts_def limit_def upto.simps)
  have f: "fetch_articles_in_date_range 2 (one_page_env [valid_raw, no_sections_raw]) d1 d2 example_world
       = Some (Raised UnboundLocalError, example_world\<lparr>requested := [(0, 5, d1, d2)]\<rparr>)"
    by (simp add: fetch_articles_in_date_range_def numeral_2_eq_2 page_def r p
        then_do_def dict_getitem_def int_of_def iterate_def)
  show ?thesis using p f parse_no_sections parse_no_cards by simp
qed

section \<open>Acceptance of records\<close>

text \<open>
  Claim C6. \<^verbatim>\<open>ItemsModel.add\<close> appends a record exactly when its headline and its content
  are both present and non-empty, and leaves the collection as it is otherwise; so a record
  with an empty headline is not stored, whatever its content. The Processor returns the
  acceptable ones of the parsed records, in order. The loop of
  \<^verbatim>\<open>fetch_articles_in_date_range\<close> does not look at what was accepted: when the
  responses at the offsets \<open>0, limit, 2 limit, ...\<close> have a total other than 0 and a
  non-empty list of raw records, \<open>rs\<close> of them, and the next response has total 0 or no
  raw record, the loop requests exactly these offsets and ends normally, whatever number
  of records of each page was accepted; every page gives one call of the Saver with its
  accepted rows, and the total grows by the numbers of accepted records.
\<close>

theorem acceptance_filter:
  "(is_acceptable item \<noteq> 0 \<longleftrightarrow>
      (\<exists>h c. headline item = Some h \<and> content item = Some c \<and> h \<noteq> [] \<and> c \<noteq> []))
   \<and> add items item = (if is_acceptable item \<noteq> 0 then items @ [item] else items)
   \<and> (headline item = Some [] \<longrightarrow> add items item = items \<and> len (add items item) = len items)
   \<and> (Processor_call raw_items = Returned accepted \<longrightarrow>
        (\<exists>parsed. map parse_data raw_items = map Returned parsed
           \<and> accepted = filter (\<lambda>item. is_acceptable item \<noteq> 0) parsed))
   \<and> (0 < max_attempts (configs w)
        \<and> (\<forall>j<length rs.
              http_get e (length (requested w) + j) (int j * limit (configs w))
                (limit (configs w)) ds de = Some (rs ! j))
        \<and> (\<forall>j<length rs. full_page (rs ! j))
        \<and> (\<forall>j<length rs. write_outcome e (n_writes w + j) = Written)
        \<and> http_get e (length (requested w) + length rs) (int (length rs) * limit (configs w))
              (limit (configs w)) ds de = Some r_end
        \<and> exhausted r_end
        \<and> length rs < fuel \<longrightarrow>
        (\<exists>w'. fetch_articles_in_date_range fuel e ds de w = Some (Returned (), w')
           \<and> requested w' = requested w @
                map (\<lambda>j. (int j * limit (configs w), limit (configs w), ds, de))
                  [0..<Suc (length rs)]
           \<and> csv w' = csv w @ map (\<lambda>r. (ds, ItemsModel_to_list (accepted_rows r))) rs
           \<and> total_value (configs w')
                = total_value (configs w) + sum_list (map (\<lambda>r. len (accepted_rows r)) rs)))"
proof -
  have a: "headline item = Some [] \<Longrightarrow> is_acceptable item = 0"
    by (simp add: is_acceptable_def split: option.splits)
  have p: "0 < max_attempts (configs w)
        \<and> (\<forall>j<length rs.
              http_get e (length (requested w) + j) (int j * limit (configs w))
                (limit (configs w)) ds de = Some (rs ! j))
        \<and> (\<forall>j<length rs. full_page (rs ! j))
        \<and> (\<forall>j<length rs. write_outcome e (n_writes w + j) = Written)
        \<and> http_get e (length (requested w) + length rs) (int (length rs) * limit (configs w))
              (limit (configs w)) ds de = Some r_end
        \<and> exhausted r_end
        \<and> length rs < fuel \<longrightarrow>
        (\<exists>w'. fetch_articles_in_date_range fuel e ds de w = Some (Returned (), w')
           \<and> requested w' = requested w @
                map (\<lambda>j. (int j * limit (configs w), limit (configs w), ds, de))
                  [0..<Suc (length rs)]
           \<and> csv w' = csv w @ map (\<lambda>r. (ds, ItemsModel_to_list (accepted_rows r))) rs
           \<and> total_value (configs w')
                = total_value (configs w) + sum_list (map (\<lambda>r. len (accepted_rows r)) rs))"
  proof (intro impI, elim conjE)
    assume h: "0 < max_attempts (configs w)"
      "\<forall>j<length rs.
              http_get e (length (requested w) + j) (int j * limit (configs w))
                (limit (configs w)) ds de = Some (rs ! j)"
      "\<forall>j<length rs. full_page (rs ! j)"
      "\<forall>j<length rs. write_outcome e (n_writes w + j) = Written"
      "http_get e (length (requested w) + length rs) (int (length rs) * limit (configs w))
              (limit (configs w)) ds de = Some r_end"
      "exhausted r_end" "length rs < fuel"
    from offsets_loop_pages [of w rs e 0 ds de r_end fuel] h
    obtain w' where w': "offsets_loop fuel e ds de 0 w = Some (Returned (), w')"
      "requested w' = requested w @
            map (\<lambda>j. (int j * limit (configs w), limit (configs w), ds, de))
              [0..<Suc (length rs)]"
      "csv w' = csv w @ map (\<lambda>r. (ds, ItemsModel_to_list (accepted_rows r))) rs"
      "configs w' =
            (if rs = [] then configs w
             else (configs w)\<lparr>total_value :=
                     total_value (configs w) + sum_list (map (\<lambda>r. len (accepted_rows r)) rs),
                   last_scraped_date_value := Some (date_to_string de)\<rparr>)"
      by auto
    have "total_value (configs w')
                = total_value (configs w) + sum_list (map (\<lambda>r. len (accepted_rows r)) rs)"
      using w'(4) by (simp split: if_splits)
    with w'(1-3) show "\<exists>w'. fetch_articles_in_date_range fuel e ds de w = Some (Returned (), w')
           \<and> requested w' = requested w @
                map (\<lambda>j. (int j * limit (configs w), limit (configs w), ds, de))
                  [0..<Suc (length rs)]
           \<and> csv w' = csv w @ map (\<lambda>r. (ds, ItemsModel_to_list (accepted_rows r))) rs
           \<and> total_value (configs w')
                = total_value (configs w) + sum_list (map (\<lambda>r. len (accepted_rows r)) rs)"
      unfolding fetch_articles_in_date_range_def by blast
  qed
  show ?thesis
    using is_acceptable_iff [of item] a Processor_call_filter [of raw_items accepted] p
    by (simp add: add_def)
qed

theorem acceptance_filter_witness:
  "is_acceptable (valid_item\<lparr>headline := Some []\<rparr>) = 0
   \<and> add [valid_item] (valid_item\<lparr>headline := Some []\<rparr>) = [valid_item]
   \<and> Processor_call [empty_headline_raw] = Returned []
   \<and> (\<exists>w'. fetch_articles_in_date_range 3 (paged_env [[empty_headline_raw], [valid_raw]])
              (string_to_date 737425) (string_to_date 737426) example_world
            = Some (Returned (), w')
         \<and> requested w' =
              [(0, 5, string_to_date 737425, string_to_date 737426),
               (5, 5, string_to_date 737425, string_to_date 737426),
               (10, 5, string_to_date 737425, string_to_date 737426)]
         \<and> csv w' = [(string_to_date 737425, []), (string_to_date 737425, [to_list valid_item])]
         \<and> total_value (configs w') = 1)"
proof -
  let ?e = "paged_env [[empty_headline_raw], [valid_raw]]"
  let ?rs = "[\<lparr>resp_total = Val 2, resp_items = Val [empty_headline_raw]\<rparr>,
              \<lparr>resp_total = Val 2, resp_items = Val [valid_raw]\<rparr>]"
  have l: "limit (configs example_world) = 5" "0 < max_attempts (configs example_world)"
      "requested example_world = []" "n_writes example_world = 0"
      "csv example_world = []" "total_value (configs example_world) = 0"
    by (simp_all add: example_world_def example_configs_def limit_def max_attempts_def)
  have h1: "\<forall>j<length ?rs.
              http_get ?e (length (requested example_world) + j)
                (int j * limit (configs example_world))
                (limit (configs example_world)) (string_to_date 737425) (string_to_date 737426)
              = Some (?rs ! j)"
    by (auto simp add: l paged_env_def less_Suc_eq)
  have h2: "\<forall>j<length ?rs. full_page (?rs ! j)"
    by (auto simp add: less_Suc_eq full_page_rejected full_page_valid)
  have h3: "\<forall>j<length ?rs. write_outcome ?e (n_writes example_world + j) = Written"
    by (simp add: paged_env_def)
  have h4: "http_get ?e (length (requested example_world) + length ?rs)
              (int (length ?rs) * limit (configs example_world))
              (limit (configs example_world)) (string_to_date 737425) (string_to_date 737426)
            = Some \<lparr>resp_total = Val 2, resp_items = Val []\<rparr>"
    by (simp add: l paged_env_def)
  have h5: "exhausted \<lparr>resp_total = Val 2, resp_items = Val []\<rparr>"
    by (simp add: exhausted_def)
  have h6: "length ?rs < 3" by simp
  show ?thesis
    using acceptance_filter [of "valid_item\<lparr>headline := Some []\<rparr>" "[valid_item]"
      "[empty_headline_raw]" "[]" example_world ?rs ?e
      "string_to_date 737425" "string_to_date 737426"
      "\<lparr>resp_total = Val 2, resp_items = Val []\<rparr>" 3]
      h1 h2 h3 h4 h5 h6 l(2)
    by (simp add: Processor_call_empty_headline l full_page_rejected full_page_valid
        len_def ItemsModel_to_list_def upt_rec [of 0])
qed

section \<open>The invariant of ItemsModel\<close>

text \<open>
  Claim C10. Every item of an \<^verbatim>\<open>ItemsModel\<close> has a headline and a content that are
  present and not empty: the empty collection has the property, \<^verbatim>\<open>add\<close> keeps it for
  every item, so that what the Processor returns has it; \<^verbatim>\<open>to_list\<close> makes of such items
  rows whose headline and content columns are non-empty texts; and a run of \<^verbatim>\<open>begin\<close>
  that starts with such rows in the output ends with such rows only.
\<close>

theorem stored_items_have_headline_and_content:
  "list_all has_headline_and_content ItemsModel_init
   \<and> (list_all has_headline_and_content items
        \<longrightarrow> list_all has_headline_and_content (add items item))
   \<and> (Processor_call raw_items = Returned items_out
        \<longrightarrow> list_all has_headline_and_content items_out)
   \<and> (list_all has_headline_and_content items
        \<longrightarrow> list_all row_has_headline_and_content (ItemsModel_to_list items))
   \<and> (rows_ok w \<and> fetch_articles_in_date_range page_fuel e ds de w = Some (r, w1)
        \<longrightarrow> rows_ok w1)
   \<and> (rows_ok w \<and> Scraper_begin page_fuel fuel e w = Some w' \<longrightarrow> rows_ok w')"
  using add_keeps_invariant [of items item] Processor_call_invariant [of raw_items items_out]
    ItemsModel_to_list_rows [of items]
    offsets_loop_rows_ok [of page_fuel e ds de 0 w r w1]
    begin_loop_rows_ok [of page_fuel fuel e Fresh w w']
  by (simp add: ItemsModel_init_def fetch_articles_in_date_range_def Scraper_begin_def)

theorem stored_items_have_headline_and_content_witness:
  "list_all has_headline_and_content (add [valid_item] (valid_item\<lparr>content := None\<rparr>))
   \<and> list_all has_headline_and_content [valid_item]
   \<and> list_all row_has_headline_and_content (ItemsModel_to_list [valid_item])
   \<and> rows_ok (example_world\<lparr>requested := [(0, 5, 0, 1), (5, 5, 0, 1)],
         csv := [(0, [to_list valid_item])],
         configs := example_configs\<lparr>total_value := 1,
                      last_scraped_date_value := Some (date_to_string 1)\<rparr>,
         n_writes := Suc 0,
         config_file := Some (example_configs\<lparr>total_value := 1,
                      last_scraped_date_value := Some (date_to_string 1)\<rparr>)\<rparr>)"
proof -
  have h1: "list_all has_headline_and_content [valid_item]"
    by (simp add: has_headline_and_content_def valid_item_def)
  have h2: "rows_ok example_world"
    by (simp add: rows_ok_def example_world_def)
  show ?thesis
    using stored_items_have_headline_and_content [of "[valid_item]"
      "valid_item\<lparr>content := None\<rparr>" "[valid_raw, empty_headline_raw]" "[valid_item]"
      example_world 2 "one_page_env [valid_raw, empty_headline_raw]" 0 1 "Returned ()"
      "example_world\<lparr>requested := [(0, 5, 0, 1), (5, 5, 0, 1)],
         csv := [(0, [to_list valid_item])],
         configs := example_configs\<lparr>total_value := 1,
                      last_scraped_date_value := Some (date_to_string 1)\<rparr>,
         n_writes := Suc 0,
         config_file := Some (example_configs\<lparr>total_value := 1,
                      last_scraped_date_value := Some (date_to_string 1)\<rparr>)\<rparr>"]
      h1 h2 Processor_call_mixed one_page_fetch [of 0 1]
    by simp
qed

section \<open>Window Walker\<close>

text \<open>
  Claim C8, as stated: the sequence of windows is finite. It is not for a window width of
  zero days (\<^verbatim>\<open>threshold\<close> 0) and a cursor before the clock: \<^verbatim>\<open>date_iterable\<close>
  yields the date of the cursor again and again, and no amount of fuel lets it end.
\<close>

theorem zero_width_windows_never_end:
  "\<forall>fuel. date_iterable fuel failing_env Fresh zero_width_world = None"
  by (simp add: zero_width_never_ends zero_width_world_def)

text \<open>
  Claim C8, amended. Let step \<open>N\<close> be the first step of \<^verbatim>\<open>date_iterable\<close> at which the
  date it would yield is not before the clock read at that step, a new reading at every
  step. Then the generator yields exactly \<open>N\<close> dates and ends: the first is
  \<^verbatim>\<open>config.last_scraped_date\<close>, each next one is the previous one plus
  \<^verbatim>\<open>config.time_delta\<close>. The date ranges of a run of \<^verbatim>\<open>begin\<close> that returns are
  these dates, each with the date plus \<^verbatim>\<open>config.time_delta\<close> as its end, so that each
  range starts where the previous one ended, whatever happens in the ranges.
\<close>

theorem window_walker_sequence:
  assumes "\<forall>k<N. last_scraped_date (configs w) + int k * time_delta (configs w)
                   < now e (n_clock w + k)"
    and "now e (n_clock w + N)
           \<le> last_scraped_date (configs w) + int N * time_delta (configs w)"
  shows "(N < fuel \<longrightarrow>
           date_iterable fuel e Fresh w =
             Some (map (\<lambda>k. last_scraped_date (configs w) + int k * time_delta (configs w))
                     [0..<N],
                   w\<lparr>n_clock := n_clock w + Suc N\<rparr>))
       \<and> (Scraper_begin page_fuel fuel e w = Some w' \<longrightarrow>
           worked w' = worked w @
             map (\<lambda>k. (last_scraped_date (configs w) + int k * time_delta (configs w),
                        last_scraped_date (configs w) + int k * time_delta (configs w)
                          + time_delta (configs w))) [0..<N])"
  using date_iterable_run [where g = Fresh and w = w and c = "last_scraped_date (configs w)"
      and N = N and e = e and fuel = fuel, OF _ assms]
    begin_loop_worked [where g = Fresh and w = w and c = "last_scraped_date (configs w)"
      and N = N and e = e and page_fuel = page_fuel and fuel = fuel and w' = w', OF _ assms]
  by (simp add: Scraper_begin_def)

theorem window_walker_sequence_witness:
  "date_iterable 4 ticking_env Fresh example_world =
     Some ([string_to_date 737425, string_to_date 737426, string_to_date 737427],
           example_world\<lparr>n_clock := 4\<rparr>)
   \<and> map_option worked (Scraper_begin 1 4 ticking_env example_world)
     = Some [(string_to_date 737425, string_to_date 737426),
             (string_to_date 737426, string_to_date 737427),
             (string_to_date 737427, string_to_date 737428)]"
proof -
  have c: "last_scraped_date (configs example_world) = string_to_date 737425"
      "time_delta (configs example_world) = us_per_day" "n_clock example_world = 0"
      "worked example_world = []"
    by (simp_all add: example_world_def example_configs_def last_scraped_date_def
        time_delta_def timedelta_days_def)
  have h1: "\<forall>k<3. last_scraped_date (configs example_world)
                     + int k * time_delta (configs example_world)
                   < now ticking_env (n_clock example_world + k)"
    by (auto simp add: c ticking_env_def string_to_date_def us_per_day_def less_Suc_eq
        eval_nat_numeral)
  have h2: "now ticking_env (n_clock example_world + 3)
           \<le> last_scraped_date (configs example_world)
               + int 3 * time_delta (configs example_world)"
    by (simp add: c ticking_env_def string_to_date_def us_per_day_def)
  show ?thesis
    using window_walker_sequence [OF h1 h2, of 4 1 "example_world\<lparr>
       requested := [(0, 5, string_to_date 737425, string_to_date 737426),
                     (0, 5, string_to_date 737426, string_to_date 737427),
                     (0, 5, string_to_date 737427, string_to_date 737428)],
       n_clock := 4,
       worked := [(string_to_date 737425, string_to_date 737426),
                  (string_to_date 737426, string_to_date 737427),
                  (string_to_date 737427, string_to_date 737428)]\<rparr>"] ticking_run
    by (simp add: c string_to_date_def us_per_day_def upt_rec [of 0] eval_nat_numeral)
qed

section \<open>Page Walker\<close>

text \<open>
  Claim C4. At any offset, a request that is answered ends the loop of
  \<^verbatim>\<open>fetch_articles_in_date_range\<close> normally, with nothing done but the request, when the
  total of the response is 0, whatever its items are (the total is tested first); for a
  response with a total \<open>t\<close> and a list of items it does so exactly when \<open>t\<close> is 0 or the
  list is empty. For a remote API with a page of records at each of the offsets
  \<open>0, limit, 2 limit, ...\<close> below \<open>K\<close> and exhausted at \<open>K\<close>, the loop ends normally
  after requests at exactly the offsets \<open>0, limit, ..., K\<close>: \<open>K div limit\<close> pages fetched
  and completed (saved and committed) and the request that finds the API exhausted.
\<close>

theorem page_walker:
  "(0 < max_attempts (configs w)
      \<and> http_get e (length (requested w)) offset (limit (configs w)) ds de = Some r
      \<and> resp_total r = Val 0 \<longrightarrow>
      offsets_loop (Suc fuel) e ds de offset w =
        Some (Returned (),
              w\<lparr>requested := requested w @ [(offset, limit (configs w), ds, de)]\<rparr>))
   \<and> (0 < max_attempts (configs w)
      \<and> http_get e (length (requested w)) offset (limit (configs w)) ds de
           = Some \<lparr>resp_total = Val t, resp_items = Val raw_items\<rparr> \<longrightarrow>
      (offsets_loop (Suc fuel) e ds de offset w =
        Some (Returned (),
              w\<lparr>requested := requested w @ [(offset, limit (configs w), ds, de)]\<rparr>))
       = (t = 0 \<or> raw_items = []))
   \<and> (0 < max_attempts (configs w) \<and> 0 < limit (configs w)
      \<and> K = int (length rs) * limit (configs w)
      \<and> (\<forall>j<length rs.
            http_get e (length (requested w) + j) (int j * limit (configs w))
              (limit (configs w)) ds de = Some (rs ! j))
      \<and> (\<forall>j<length rs. full_page (rs ! j))
      \<and> (\<forall>j<length rs. write_outcome e (n_writes w + j) = Written)
      \<and> http_get e (length (requested w) + length rs) K (limit (configs w)) ds de = Some r_end
      \<and> exhausted r_end
      \<and> length rs < fuel \<longrightarrow>
      (\<exists>w'. fetch_articles_in_date_range fuel e ds de w = Some (Returned (), w')
         \<and> requested w' = requested w @
              map (\<lambda>j. (int j * limit (configs w), limit (configs w), ds, de))
                [0..<Suc (nat (K div limit (configs w)))]
         \<and> n_writes w' = n_writes w + nat (K div limit (configs w))
         \<and> length (csv w') = length (csv w) + nat (K div limit (configs w))))"
proof (intro conjI impI)
  assume "0 < max_attempts (configs w)
      \<and> http_get e (length (requested w)) offset (limit (configs w)) ds de = Some r
      \<and> resp_total r = Val 0"
  then show "offsets_loop (Suc fuel) e ds de offset w =
        Some (Returned (),
              w\<lparr>requested := requested w @ [(offset, limit (configs w), ds, de)]\<rparr>)"
    using offsets_loop_total_zero [of w e offset ds de r fuel] by simp
next
  assume "0 < max_attempts (configs w)
      \<and> http_get e (length (requested w)) offset (limit (configs w)) ds de
           = Some \<lparr>resp_total = Val t, resp_items = Val raw_items\<rparr>"
  then show "(offsets_loop (Suc fuel) e ds de offset w =
        Some (Returned (),
              w\<lparr>requested := requested w @ [(offset, limit (configs w), ds, de)]\<rparr>))
       = (t = 0 \<or> raw_items = [])"
    using offsets_loop_ends_iff [of w e offset ds de t raw_items fuel] by simp
next
  assume h: "0 < max_attempts (configs w) \<and> 0 < limit (configs w)
      \<and> K = int (length rs) * limit (configs w)
      \<and> (\<forall>j<length rs.
            http_get e (length (requested w) + j) (int j * limit (configs w))
              (limit (configs w)) ds de = Some (rs ! j))
      \<and> (\<forall>j<length rs. full_page (rs ! j))
      \<and> (\<forall>j<length rs. write_outcome e (n_writes w + j) = Written)
      \<and> http_get e (length (requested w) + length rs) K (limit (configs w)) ds de = Some r_end
      \<and> exhausted r_end
      \<and> length rs < fuel"
  then have n: "nat (K div limit (configs w)) = length rs" by simp
  from h offsets_loop_pages [of w rs e 0 ds de r_end fuel]
  obtain w' where w': "offsets_loop fuel e ds de 0 w = Some (Returned (), w')"
      "requested w' = requested w @
            map (\<lambda>j. (int j * limit (configs w), limit (configs w), ds, de))
              [0..<Suc (length rs)]"
      "csv w' = csv w @ map (\<lambda>r. (ds, ItemsModel_to_list (accepted_rows r))) rs"
      "n_writes w' = n_writes w + length rs"
    by auto
  then show "\<exists>w'. fetch_articles_in_date_range fuel e ds de w = Some (Returned (), w')
         \<and> requested w' = requested w @
              map (\<lambda>j. (int j * limit (configs w), limit (configs w), ds, de))
                [0..<Suc (nat (K div limit (configs w)))]
         \<and> n_writes w' = n_writes w + nat (K div limit (configs w))
         \<and> length (csv w') = length (csv w) + nat (K div limit (configs w))"
    unfolding fetch_articles_in_date_range_def n by (intro exI [where x = w']) simp
qed

theorem page_walker_witness:
  "offsets_loop (Suc 0) ticking_env (string_to_date 737425) (string_to_date 737426) 0
       example_world
     = Some (Returned (),
             example_world\<lparr>requested :=
               [(0, 5, string_to_date 737425, string_to_date 737426)]\<rparr>)
   \<and> (\<exists>w'. fetch_articles_in_date_range 3 (paged_env [[valid_raw], [valid_raw]])
              (string_to_date 737425) (string_to_date 737426) example_world
            = Some (Returned (), w')
         \<and> requested w' =
              [(0, 5, string_to_date 737425, string_to_date 737426),
               (5, 5, string_to_date 737425, string_to_date 737426),
               (10, 5, string_to_date 737425, string_to_date 737426)]
         \<and> n_writes w' = 2
         \<and> length (csv w') = 2)"
proof -
  let ?e = "paged_env [[valid_raw], [valid_raw]]"
  let ?rs = "[\<lparr>resp_total = Val 2, resp_items = Val [valid_raw]\<rparr>,
              \<lparr>resp_total = Val 2, resp_items = Val [valid_raw]\<rparr>]"
  have l: "limit (configs example_world) = 5" "0 < max_attempts (configs example_world)"
      "requested example_world = []" "n_writes example_world = 0"
      "csv example_world = []"
    by (simp_all add: example_world_def example_configs_def limit_def max_attempts_def)
  have g: "http_get ticking_env (length (requested example_world)) 0
             (limit (configs example_world)) (string_to_date 737425) (string_to_date 737426)
           = Some \<lparr>resp_total = Val 0, resp_items = Val []\<rparr>"
    by (simp add: ticking_env_def)
  have h1: "\<forall>j<length ?rs.
              http_get ?e (length (requested example_world) + j)
                (int j * limit (configs example_world))
                (limit (configs example_world)) (string_to_date 737425) (string_to_date 737426)
              = Some (?rs ! j)"
    by (auto simp add: l paged_env_def less_Suc_eq)
  have h2: "\<forall>j<length ?rs. full_page (?rs ! j)"
    by (auto simp add: less_Suc_eq full_page_valid)
  have h3: "\<forall>j<length ?rs. write_outcome ?e (n_writes example_world + j) = Written"
    by (simp add: paged_env_def)
  have h4: "http_get ?e (length (requested example_world) + length ?rs) 10
              (limit (configs example_world)) (string_to_date 737425) (string_to_date 737426)
            = Some \<lparr>resp_total = Val 2, resp_items = Val []\<rparr>"
    by (simp add: l paged_env_def)
  have h5: "exhausted \<lparr>resp_total = Val 2, resp_items = Val []\<rparr>"
    by (simp add: exhausted_def)
  show ?thesis
    using page_walker [of example_world ticking_env 0 "string_to_date 737425"
        "string_to_date 737426" "\<lparr>resp_total = Val 0, resp_items = Val []\<rparr>" 0 0 "[]" 10 ?rs
        "\<lparr>resp_total = Val 2, resp_items = Val []\<rparr>"]
      page_walker [of example_world ?e 0 "string_to_date 737425"
        "string_to_date 737426" "\<lparr>resp_total = Val 0, resp_items = Val []\<rparr>" 3 0 "[]" 10 ?rs
        "\<lparr>resp_total = Val 2, resp_items = Val []\<rparr>"]
      g h1 h2 h3 h4 h5 l(2)
    by (simp add: l upt_conv_Cons eval_nat_numeral del: offsets_loop.simps upt_Suc)
qed

section \<open>A window whose fetch fails\<close>




section \<open>A commit that cannot be written\<close>

text \<open>
  Claim C2, as stated: a commit that fails to write the configuration file halts the run,
  and is not an update of the memory alone. In the code the first window of this run
  ends with OSError from \<^verbatim>\<open>Config.update\<close>, with the total and the date changed in
  memory and the file as it was; \<^verbatim>\<open>begin\<close> catches the exception and goes on: the
  run requests the second window, commits it (the file then holds the count of both
  windows) and returns normally.
\<close>

theorem failed_commit_does_not_halt_run:
  "fetch_articles_in_date_range 2 write_fails_env (string_to_date 737425)
       (string_to_date 737426) example_world
     = Some (Raised OSError,
         example_world\<lparr>
           requested := [(0, 5, string_to_date 737425, string_to_date 737426)],
           csv := [(string_to_date 737425, [to_list valid_item])],
           configs := example_configs\<lparr>total_value := 1,
                        last_scraped_date_value := Some 737426\<rparr>,
           n_writes := Suc 0\<rparr>)
   \<and> config_file example_world = Some example_configs
   \<and> Scraper_begin 2 3 write_fails_env example_world
     = Some (example_world\<lparr>
           requested := [(0, 5, string_to_date 737425, string_to_date 737426),
                         (0, 5, string_to_date 737426, string_to_date 737427),
                         (5, 5, string_to_date 737426, string_to_date 737427)],
           csv := [(string_to_date 737425, [to_list valid_item]),
                   (string_to_date 737426, [to_list valid_item])],
           configs := example_configs\<lparr>total_value := 2,
                        last_scraped_date_value := Some 737427\<rparr>,
           config_file := Some (example_configs\<lparr>total_value := 2,
                        last_scraped_date_value := Some 737427\<rparr>),
           n_writes := 2, n_clock := 3,
           worked := [(string_to_date 737425, string_to_date 737426),
                      (string_to_date 737426, string_to_date 737427)]\<rparr>)"
proof -
  have f: "fetch_articles_in_date_range 2 write_fails_env (string_to_date 737425)
       (string_to_date 737426) example_world
     = Some (Raised OSError,
         example_world\<lparr>
           requested := [(0, 5, string_to_date 737425, string_to_date 737426)],
           csv := [(string_to_date 737425, [to_list valid_item])],
           configs := example_configs\<lparr>total_value := 1,
                        last_scraped_date_value := Some 737426\<rparr>,
           n_writes := Suc 0\<rparr>)"
    by (simp add: fetch_articles_in_date_range_def numeral_2_eq_2 page_def
        Requester_call_cases write_fails_env_def example_world_def example_configs_def
        max_attempts_def limit_def then_do_def dict_getitem_def int_of_def iterate_def
        Processor_call_valid Saver_call_def update_def Let_def len_def ItemsModel_to_list_def
        date_to_string_def string_to_date_def us_per_day_def)
  have b: "Scraper_begin 2 3 write_fails_env example_world
     = Some (example_world\<lparr>
           requested := [(0, 5, string_to_date 737425, string_to_date 737426),
                         (0, 5, string_to_date 737426, string_to_date 737427),
                         (5, 5, string_to_date 737426, string_to_date 737427)],
           csv := [(string_to_date 737425, [to_list valid_item]),
                   (string_to_date 737426, [to_list valid_item])],
           configs := example_configs\<lparr>total_value := 2,
                        last_scraped_date_value := Some 737427\<rparr>,
           config_file := Some (example_configs\<lparr>total_value := 2,
                        last_scraped_date_value := Some 737427\<rparr>),
           n_writes := 2, n_clock := 3,
           worked := [(string_to_date 737425, string_to_date 737426),
                      (string_to_date 737426, string_to_date 737427)]\<rparr>)"
    by (simp add: Scraper_begin_def numeral_2_eq_2 numeral_3_eq_3 date_iterable_next_def
        fetch_articles_in_date_range_def page_def
        Requester_call_cases write_fails_env_def example_world_def example_configs_def
        max_attempts_def limit_def then_do_def dict_getitem_def int_of_def iterate_def
        Processor_call_valid Saver_call_def update_def Let_def len_def ItemsModel_to_list_def
        last_scraped_date_def time_delta_def timedelta_days_def
        date_to_string_def string_to_date_def us_per_day_def)
  show ?thesis using f b by (simp add: example_world_def)
qed

text \<open>
  Claim C2, amended. When the configuration file cannot be written, \<^verbatim>\<open>Config.update\<close>
  raises OSError after it has changed the total and the date in memory; the file is as it
  was (or cut short, when the dump fails). The exception leaves
  \<^verbatim>\<open>fetch_articles_in_date_range\<close>: no further page of the window is requested. It is
  fatal for the window, not for the run: \<^verbatim>\<open>begin\<close> catches it and goes on with the
  next date of the generator.
\<close>

theorem failed_commit_ends_window_only:
  "(write_outcome e (n_writes w) \<noteq> Written \<longrightarrow>
      fst (update e a d w) = Raised OSError
      \<and> configs (snd (update e a d w))
          = (configs w)\<lparr>total_value := total_value (configs w) + a,
                           last_scraped_date_value := Some (date_to_string d)\<rparr>
      \<and> config_file (snd (update e a d w))
          = (if write_outcome e (n_writes w) = OpenFailed then config_file w else None))
   \<and> (0 < max_attempts (configs w)
      \<and> (\<forall>j<length rs.
            http_get e (length (requested w) + j) (int j * limit (configs w))
              (limit (configs w)) ds de = Some (rs ! j))
      \<and> (\<forall>j<length rs. full_page (rs ! j))
      \<and> (\<forall>j<length rs. write_outcome e (n_writes w + j) = Written)
      \<and> http_get e (length (requested w) + length rs) (int (length rs) * limit (configs w))
            (limit (configs w)) ds de = Some r
      \<and> full_page r
      \<and> write_outcome e (n_writes w + length rs) \<noteq> Written
      \<and> length rs < fuel \<longrightarrow>
      (\<exists>w'. fetch_articles_in_date_range fuel e ds de w = Some (Raised OSError, w')
         \<and> requested w' = requested w @
              map (\<lambda>j. (int j * limit (configs w), limit (configs w), ds, de))
                [0..<Suc (length rs)]
         \<and> total_value (configs w')
              = total_value (configs w)
                + sum_list (map (\<lambda>r. len (accepted_rows r)) (rs @ [r]))
         \<and> last_scraped_date_value (configs w') = Some (date_to_string de)))
   \<and> (date_iterable_next e g w = (Some (date_start, g1), w1)
      \<and> fetch_articles_in_date_range page_fuel e date_start
            (date_start + time_delta (configs w1))
            (w1\<lparr>worked := worked w1 @ [(date_start, date_start + time_delta (configs w1))]\<rparr>)
          = Some (Raised ex, w3) \<longrightarrow>
      begin_loop page_fuel (Suc fuel) e g w = begin_loop page_fuel fuel e g1 w3)"
proof (intro conjI)
  show "write_outcome e (n_writes w) \<noteq> Written \<longrightarrow>
      fst (update e a d w) = Raised OSError
      \<and> configs (snd (update e a d w))
          = (configs w)\<lparr>total_value := total_value (configs w) + a,
                           last_scraped_date_value := Some (date_to_string d)\<rparr>
      \<and> config_file (snd (update e a d w))
          = (if write_outcome e (n_writes w) = OpenFailed then config_file w else None)"
    by (simp add: update_def Let_def split: write_result.splits)
next
  show "0 < max_attempts (configs w)
      \<and> (\<forall>j<length rs.
            http_get e (length (requested w) + j) (int j * limit (configs w))
              (limit (configs w)) ds de = Some (rs ! j))
      \<and> (\<forall>j<length rs. full_page (rs ! j))
      \<and> (\<forall>j<length rs. write_outcome e (n_writes w + j) = Written)
      \<and> http_get e (length (requested w) + length rs) (int (length rs) * limit (configs w))
            (limit (configs w)) ds de = Some r
      \<and> full_page r
      \<and> write_outcome e (n_writes w + length rs) \<noteq> Written
      \<and> length rs < fuel \<longrightarrow>
      (\<exists>w'. fetch_articles_in_date_range fuel e ds de w = Some (Raised OSError, w')
         \<and> requested w' = requested w @
              map (\<lambda>j. (int j * limit (configs w), limit (configs w), ds, de))
                [0..<Suc (length rs)]
         \<and> total_value (configs w')
              = total_value (configs w)
                + sum_list (map (\<lambda>r. len (accepted_rows r)) (rs @ [r]))
         \<and> last_scraped_date_value (configs w') = Some (date_to_string de))"
  proof
    assume h: "0 < max_attempts (configs w)
      \<and> (\<forall>j<length rs.
            http_get e (length (requested w) + j) (int j * limit (configs w))
              (limit (configs w)) ds de = Some (rs ! j))
      \<and> (\<forall>j<length rs. full_page (rs ! j))
      \<and> (\<forall>j<length rs. write_outcome e (n_writes w + j) = Written)
      \<and> http_get e (length (requested w) + length rs) (int (length rs) * limit (configs w))
            (limit (configs w)) ds de = Some r
      \<and> full_page r
      \<and> write_outcome e (n_writes w + length rs) \<noteq> Written
      \<and> length rs < fuel"
    from h offsets_loop_pages_write_failed [of w rs e 0 ds de r fuel]
    obtain w' where w': "offsets_loop fuel e ds de 0 w = Some (Raised OSError, w')"
      "requested w' = requested w @
            map (\<lambda>j. (int j * limit (configs w), limit (configs w), ds, de))
              [0..<Suc (length rs)]"
      "configs w' = (configs w)\<lparr>total_value :=
                     total_value (configs w)
                       + sum_list (map (\<lambda>r. len (accepted_rows r)) (rs @ [r])),
                   last_scraped_date_value := Some (date_to_string de)\<rparr>"
      "config_file w' =
           (if write_outcome e (n_writes w + length rs) = OpenFailed
            then (if rs = [] then config_file w
                  else Some ((configs w)\<lparr>total_value :=
                     total_value (configs w) + sum_list (map (\<lambda>r. len (accepted_rows r)) rs),
                   last_scraped_date_value := Some (date_to_string de)\<rparr>))
            else None)"
      by auto
    show "\<exists>w'. fetch_articles_in_date_range fuel e ds de w = Some (Raised OSError, w')
         \<and> requested w' = requested w @
              map (\<lambda>j. (int j * limit (configs w), limit (configs w), ds, de))
                [0..<Suc (length rs)]
         \<and> total_value (configs w')
              = total_value (configs w)
                + sum_list (map (\<lambda>r. len (accepted_rows r)) (rs @ [r]))
         \<and> last_scraped_date_value (configs w') = Some (date_to_string de)"
      unfolding fetch_articles_in_date_range_def
      by (intro exI [where x = w']) (simp add: w')
  qed
next
  show "date_iterable_next e g w = (Some (date_start, g1), w1)
      \<and> fetch_articles_in_date_range page_fuel e date_start
            (date_start + time_delta (configs w1))
            (w1\<lparr>worked := worked w1 @ [(date_start, date_start + time_delta (configs w1))]\<rparr>)
          = Some (Raised ex, w3) \<longrightarrow>
      begin_loop page_fuel (Suc fuel) e g w = begin_loop page_fuel fuel e g1 w3"
    using begin_loop_window_raises [of e g w date_start g1 w1 page_fuel ex w3 fuel] by simp
qed

theorem failed_commit_ends_window_only_witness:
  "fst (update write_fails_env 1 (string_to_date 737426) example_world) = Raised OSError
   \<and> total_value (configs (snd (update write_fails_env 1 (string_to_date 737426)
         example_world))) = 1
   \<and> config_file (snd (update write_fails_env 1 (string_to_date 737426) example_world))
       = Some example_configs
   \<and> (\<exists>w'. fetch_articles_in_date_range 2 write_fails_env (string_to_date 737425)
              (string_to_date 737426) example_world = Some (Raised OSError, w')
         \<and> requested w' = [(0, 5, string_to_date 737425, string_to_date 737426)]
         \<and> total_value (configs w') = 1)
   \<and> begin_loop 2 (Suc 2) write_fails_env Fresh example_world
       = begin_loop 2 2 write_fails_env (Suspended (string_to_date 737425))
           (example_world\<lparr>
              requested := [(0, 5, string_to_date 737425, string_to_date 737426)],
              csv := [(string_to_date 737425, [to_list valid_item])],
              configs := example_configs\<lparr>total_value := 1,
                           last_scraped_date_value := Some 737426\<rparr>,
              n_writes := Suc 0, n_clock := Suc 0,
              worked := [(string_to_date 737425, string_to_date 737426)]\<rparr>)"
proof -
  let ?rs = "[] :: response list"
  let ?r = "\<lparr>resp_total = Val 2, resp_items = Val [valid_raw]\<rparr>"
  let ?d0 = "string_to_date 737425" and ?d1 = "string_to_date 737426"
  let ?w1 = "example_world\<lparr>n_clock := Suc 0\<rparr>"
  let ?w3 = "example_world\<lparr>
              requested := [(0, 5, ?d0, ?d1)],
              csv := [(?d0, [to_list valid_item])],
              configs := example_configs\<lparr>total_value := 1,
                           last_scraped_date_value := Some 737426\<rparr>,
              n_writes := Suc 0, n_clock := Suc 0,
              worked := [(?d0, ?d1)]\<rparr>"
  have l: "limit (configs example_world) = 5" "0 < max_attempts (configs example_world)"
      "requested example_world = []" "n_writes example_world = 0"
      "total_value (configs example_world) = 0"
      "config_file example_world = Some example_configs"
    by (simp_all add: example_world_def example_configs_def limit_def max_attempts_def)
  have h0: "write_outcome write_fails_env (n_writes example_world) \<noteq> Written"
      "write_outcome write_fails_env (n_writes example_world) = OpenFailed"
    by (simp_all add: l write_fails_env_def)
  have h4: "http_get write_fails_env (length (requested example_world) + length ?rs)
              (int (length ?rs) * limit (configs example_world))
              (limit (configs example_world)) ?d0 ?d1
            = Some ?r"
    by (simp add: l write_fails_env_def)
  have n1: "date_iterable_next write_fails_env Fresh example_world = (Some (?d0, Suspended ?d0), ?w1)"
    by (simp add: date_iterable_next_def Let_def write_fails_env_def example_world_def
        example_configs_def last_scraped_date_def string_to_date_def us_per_day_def)
  have td: "?d0 + time_delta (configs ?w1) = ?d1"
    by (simp add: example_world_def example_configs_def time_delta_def timedelta_days_def
        string_to_date_def us_per_day_def)
  have f2: "fetch_articles_in_date_range 2 write_fails_env ?d0 (?d0 + time_delta (configs ?w1))
          (?w1\<lparr>worked := worked ?w1 @ [(?d0, ?d0 + time_delta (configs ?w1))]\<rparr>)
        = Some (Raised OSError, ?w3)"
    unfolding td
    by (simp add: fetch_articles_in_date_range_def numeral_2_eq_2 page_def
        Requester_call_cases write_fails_env_def example_world_def example_configs_def
        max_attempts_def limit_def then_do_def dict_getitem_def int_of_def iterate_def
        Processor_call_valid Saver_call_def update_def Let_def len_def ItemsModel_to_list_def
        date_to_string_def string_to_date_def us_per_day_def)
  show ?thesis
    using failed_commit_ends_window_only [where e = write_fails_env and w = example_world
        and a = 1 and d = ?d1 and rs = ?rs and r = ?r
        and ds = ?d0 and de = ?d1 and fuel = 2 and g = Fresh and date_start = ?d0
        and ?g1.0 = "Suspended ?d0" and ?w1.0 = ?w1 and page_fuel = 2 and ex = OSError
        and ?w3.0 = ?w3]
      h0 h4 l(2) n1 f2
    by (auto simp add: l full_page_valid len_def simp del: begin_loop.simps)
qed

section \<open>Committed windows\<close>

text \<open>
  Claim C5. Take \<open>N\<close> windows of a run of \<^verbatim>\<open>begin\<close>, one after the other from the
  cursor, in each of which one or more pages are fetched and committed (the pages of
  window \<open>k\<close> are \<open>wins ! k\<close>) before the remote API is found exhausted. After these
  windows, whatever follows them in the run, \<^verbatim>\<open>last_scraped_date\<close> is the date of the
  cursor at the start plus \<open>N\<close> times \<^verbatim>\<open>time_delta\<close>, which for a configuration with
  no date scraped yet is the start date plus \<open>N\<close> times \<^verbatim>\<open>time_delta\<close>, and the total
  has grown by the number of the records accepted in all the pages of these windows. When
  the clock is reached after these windows, the run returns in that state.
\<close>

theorem committed_windows_cursor:
  assumes "0 < max_attempts (configs w)"
    and "\<forall>n. write_outcome e n = Written"
    and "\<forall>k<length wins. wins ! k \<noteq> [] \<and> (\<forall>j<length (wins ! k). full_page (wins ! k ! j))
               \<and> length (wins ! k) < page_fuel"
    and "\<forall>k<length wins. \<forall>j<length (wins ! k). \<forall>n.
               http_get e n (int j * limit (configs w)) (limit (configs w))
                 (last_scraped_date (configs w) + int k * time_delta (configs w))
                 (last_scraped_date (configs w) + int k * time_delta (configs w)
                    + time_delta (configs w))
               = Some (wins ! k ! j)"
    and "\<forall>k<length wins. \<forall>n. \<exists>r.
               http_get e n (int (length (wins ! k)) * limit (configs w)) (limit (configs w))
                 (last_scraped_date (configs w) + int k * time_delta (configs w))
                 (last_scraped_date (configs w) + int k * time_delta (configs w)
                    + time_delta (configs w))
               = Some r \<and> exhausted r"
    and "\<forall>k<length wins. last_scraped_date (configs w) + int k * time_delta (configs w)
               < now e (n_clock w + k)"
  shows "(\<exists>w'. Scraper_begin page_fuel (length wins + fuel) e w
             = begin_loop page_fuel fuel e
                 (if wins = [] then Fresh
                  else Suspended (last_scraped_date (configs w)
                         + int (length wins) * time_delta (configs w)
                         - time_delta (configs w))) w'
      \<and> last_scraped_date (configs w')
          = last_scraped_date (configs w) + int (length wins) * time_delta (configs w)
      \<and> (last_scraped_date_value (configs w) = None \<longrightarrow>
           last_scraped_date (configs w')
             = string_to_date (start_date_value (configs w))
               + int (length wins) * time_delta (configs w))
      \<and> total_value (configs w')
          = total_value (configs w)
            + sum_list (map (\<lambda>rs. sum_list (map (\<lambda>r. len (accepted_rows r)) rs)) wins))
   \<and> (now e (n_clock w + length wins)
           \<le> last_scraped_date (configs w) + int (length wins) * time_delta (configs w)
        \<and> length wins < fuel \<longrightarrow>
      (\<exists>w'. Scraper_begin page_fuel fuel e w = Some w'
        \<and> last_scraped_date (configs w')
            = last_scraped_date (configs w) + int (length wins) * time_delta (configs w)
        \<and> (last_scraped_date_value (configs w) = None \<longrightarrow>
             last_scraped_date (configs w')
               = string_to_date (start_date_value (configs w))
                 + int (length wins) * time_delta (configs w))
        \<and> total_value (configs w')
            = total_value (configs w)
              + sum_list (map (\<lambda>rs. sum_list (map (\<lambda>r. len (accepted_rows r)) rs)) wins)))"
proof -
  let ?c = "last_scraped_date (configs w)" and ?d = "time_delta (configs w)"
  let ?cf = "(if wins = [] then configs w
            else (configs w)\<lparr>total_value := total_value (configs w)
                     + sum_list (map (\<lambda>rs. sum_list (map (\<lambda>r. len (accepted_rows r)) rs)) wins),
                   last_scraped_date_value :=
                     Some (date_to_string (?c + int (length wins) * ?d))\<rparr>)"
  have rt: "string_to_date (date_to_string (?c + int (length wins) * ?d))
      = ?c + int (length wins) * ?d"
    by (rule midnight_roundtrip) (rule window_start_midnight)
  have l: "last_scraped_date ?cf = ?c + int (length wins) * ?d"
    using rt by (simp add: last_scraped_date_def)
  have t: "total_value ?cf = total_value (configs w)
            + sum_list (map (\<lambda>rs. sum_list (map (\<lambda>r. len (accepted_rows r)) rs)) wins)"
    by simp
  have s: "last_scraped_date_value (configs w) = None \<longrightarrow>
      ?c = string_to_date (start_date_value (configs w))"
    by (simp add: last_scraped_date_def)
  from begin_loop_windows_prefix [where g = Fresh and c = ?c and fuel = fuel,
      OF assms(1,2) _ assms(3-6)]
  obtain wn where rn: "begin_loop page_fuel (length wins + fuel) e Fresh w
             = begin_loop page_fuel fuel e
                 (if wins = [] then Fresh
                  else Suspended (?c + int (length wins) * ?d - ?d)) wn"
      and cfn: "configs wn = ?cf"
    by auto
  have first: "\<exists>w'. Scraper_begin page_fuel (length wins + fuel) e w
             = begin_loop page_fuel fuel e
                 (if wins = [] then Fresh
                  else Suspended (?c + int (length wins) * ?d - ?d)) w'
      \<and> last_scraped_date (configs w') = ?c + int (length wins) * ?d
      \<and> (last_scraped_date_value (configs w) = None \<longrightarrow>
           last_scraped_date (configs w')
             = string_to_date (start_date_value (configs w)) + int (length wins) * ?d)
      \<and> total_value (configs w')
          = total_value (configs w)
            + sum_list (map (\<lambda>rs. sum_list (map (\<lambda>r. len (accepted_rows r)) rs)) wins)"
    using rn cfn l t s by (intro exI [where x = wn]) (simp add: Scraper_begin_def)
  have second: "now e (n_clock w + length wins) \<le> ?c + int (length wins) * ?d
        \<and> length wins < fuel \<longrightarrow>
      (\<exists>w'. Scraper_begin page_fuel fuel e w = Some w'
        \<and> last_scraped_date (configs w') = ?c + int (length wins) * ?d
        \<and> (last_scraped_date_value (configs w) = None \<longrightarrow>
             last_scraped_date (configs w')
               = string_to_date (start_date_value (configs w)) + int (length wins) * ?d)
        \<and> total_value (configs w')
            = total_value (configs w)
              + sum_list (map (\<lambda>rs. sum_list (map (\<lambda>r. len (accepted_rows r)) rs)) wins))"
  proof
    assume h: "now e (n_clock w + length wins) \<le> ?c + int (length wins) * ?d
        \<and> length wins < fuel"
    from begin_loop_windows [where g = Fresh and c = ?c and fuel = fuel,
        OF assms(1,2) _ assms(3-6)] h
    obtain w' where r: "begin_loop page_fuel fuel e Fresh w = Some w'"
        and cf: "configs w' = ?cf"
      by auto
    show "\<exists>w'. Scraper_begin page_fuel fuel e w = Some w'
        \<and> last_scraped_date (configs w') = ?c + int (length wins) * ?d
        \<and> (last_scraped_date_value (configs w) = None \<longrightarrow>
             last_scraped_date (configs w')
               = string_to_date (start_date_value (configs w)) + int (length wins) * ?d)
        \<and> total_value (configs w')
            = total_value (configs w)
              + sum_list (map (\<lambda>rs. sum_list (map (\<lambda>r. len (accepted_rows r)) rs)) wins)"
      using r cf l t s by (intro exI [where x = w']) (simp add: Scraper_begin_def)
  qed
  from first second show ?thesis by (rule conjI)
qed

theorem committed_windows_cursor_witness:
  "\<exists>w'. Scraper_begin 2 3 two_day_env example_world = Some w'
      \<and> last_scraped_date (configs w') = string_to_date 737427
      \<and> total_value (configs w') = 2"
proof -
  let ?r = "\<lparr>resp_total = Val 2, resp_items = Val [valid_raw]\<rparr>"
  let ?wins = "[[?r], [?r]]"
  have l: "limit (configs example_world) = 5" "0 < max_attempts (configs example_world)"
      "n_clock example_world = 0" "total_value (configs example_world) = 0"
      "last_scraped_date (configs example_world) = string_to_date 737425"
      "time_delta (configs example_world) = us_per_day"
      "last_scraped_date_value (configs example_world) = None"
      "start_date_value (configs example_world) = 737425"
    by (simp_all add: example_world_def example_configs_def limit_def max_attempts_def
        last_scraped_date_def time_delta_def timedelta_days_def)
  have h2: "\<forall>n. write_outcome two_day_env n = Written" by (simp add: two_day_env_def)
  have h3: "\<forall>k<length ?wins. ?wins ! k \<noteq> []
               \<and> (\<forall>j<length (?wins ! k). full_page (?wins ! k ! j))
               \<and> length (?wins ! k) < 2"
    by (auto simp add: less_Suc_eq full_page_valid)
  have h4: "\<forall>k<length ?wins. \<forall>j<length (?wins ! k). \<forall>n.
               http_get two_day_env n (int j * limit (configs example_world))
                 (limit (configs example_world))
                 (last_scraped_date (configs example_world)
                    + int k * time_delta (configs example_world))
                 (last_scraped_date (configs example_world)
                    + int k * time_delta (configs example_world)
                    + time_delta (configs example_world))
               = Some (?wins ! k ! j)"
    by (auto simp add: less_Suc_eq two_day_env_def)
  have h5: "\<forall>k<length ?wins. \<forall>n. \<exists>r.
               http_get two_day_env n (int (length (?wins ! k)) * limit (configs example_world))
                 (limit (configs example_world))
                 (last_scraped_date (configs example_world)
                    + int k * time_delta (configs example_world))
                 (last_scraped_date (configs example_world)
                    + int k * time_delta (configs example_world)
                    + time_delta (configs example_world))
               = Some r \<and> exhausted r"
    by (auto simp add: less_Suc_eq two_day_env_def l exhausted_def)
  have h6: "\<forall>k<length ?wins. last_scraped_date (configs example_world)
                 + int k * time_delta (configs example_world)
               < now two_day_env (n_clock example_world + k)"
    by (auto simp add: less_Suc_eq two_day_env_def l string_to_date_def us_per_day_def)
  have h7: "now two_day_env (n_clock example_world + length ?wins)
           \<le> last_scraped_date (configs example_world)
               + int (length ?wins) * time_delta (configs example_world)"
    by (simp add: two_day_env_def l string_to_date_def us_per_day_def)
  have h8: "length ?wins < 3" by simp
  show ?thesis
    using committed_windows_cursor [OF l(2) h2 h3 h4 h5 h6, of 3] h7 h8
    by (auto simp add: l full_page_valid len_def string_to_date_def us_per_day_def)
qed

end
